theory Spec2Isabelle
  imports Complex_Main "HOL-Library.Word" "HOL-Library.Char_ord" "HOL-Library.List_Lexorder"
begin

unbundle bit_operations_syntax

section \<open>Errors and descriptors\<close>

text \<open>
  The package-level error values of the program, and the errors of the operating system,
  which reach the program as values of Go's \<open>error\<close> interface.  \<open>ErrInvalid\<close> is what
  a method of a nil \<open>*os.File\<close> reports, \<open>NetError\<close> an error of the transport.
\<close>

datatype oserr = ENOENT | ENOTDIR | EISDIR | EEXIST | EACCES | ELOOP | EINVAL | ErrInvalid

datatype error =
    ErrBadPAth
  | ErrDuplicatePaths
  | ErrNilBuffer
  | ErrOutOfRange
  | ErrBadPaddingByte
  | OSError oserr
  | NetError

type_synonym byte = "8 word"
type_synonym FileMode = "32 word"

text \<open>
  \<open>TarballFile\<close>: the fields the program reads and writes.  \<open>Size\<close> and \<open>offset\<close> are
  \<open>int64\<close> in the source and integers here.  \<open>int64\<close> is the value that a 64-bit
  signed variable holds after an arithmetic operation with the exact result \<open>x\<close>: the
  running total of the constructor wraps around as the one of the source does.  The
  comparisons of \<open>WriteAt\<close> are modelled on the exact sums: in a writer whose
  descriptors lie between 0 and a size below \<open>2 ^ 63\<close> no sum of \<open>WriteAt\<close> leaves
  the range of 64 bits.
\<close>

definition int64 :: "int \<Rightarrow> int" where
  "int64 x = (x + 2 ^ 63) mod 2 ^ 64 - 2 ^ 63"

record TarballFile =
  Path :: string
  Size :: int
  Mode :: FileMode
  Hash :: "byte list"
  SymlinkDestination :: string
  offset :: int

section \<open>Paths\<close>

text \<open>\<open>strings.Split\<close> with a one-character separator.\<close>

fun Split :: "char \<Rightarrow> string \<Rightarrow> string list" where
  "Split c [] = [[]]"
| "Split c (x # xs) =
     (if x = c then [] # Split c xs
      else (case Split c xs of [] \<Rightarrow> [[x]] | w # ws \<Rightarrow> (x # w) # ws))"

definition Separator :: char where
  "Separator = CHR ''/''"

text \<open>\<open>filepath.IsAbs\<close> on a system whose separator is the slash.\<close>

definition IsAbs :: "string \<Rightarrow> bool" where
  "IsAbs p = (case p of [] \<Rightarrow> False | c # _ \<Rightarrow> c = Separator)"

text \<open>\<open>filepath.Base\<close>: the last element of a path, trailing separators removed.\<close>

definition Base :: "string \<Rightarrow> string" where
  "Base p =
     (if p = [] then ''.''
      else let q = dropWhile (\<lambda>c. c = Separator) (rev p);
               r = rev (takeWhile (\<lambda>c. c \<noteq> Separator) q)
           in if r = [] then [Separator] else r)"

text \<open>The first result of \<open>filepath.Split\<close>: the path up to and including its last separator.\<close>

definition SplitDir :: "string \<Rightarrow> string" where
  "SplitDir p = rev (dropWhile (\<lambda>c. c \<noteq> Separator) (rev p))"

section \<open>Construction of the writer\<close>

text \<open>
  Modelled from the spec: the \<open>sort.Interface\<close> methods of \<open>tarballFileList\<close> are not
  part of the sources at hand; the specification says that descriptors are sorted by
  path.  Paths are compared as byte strings, as Go compares strings.  The list that is
  sorted holds no two descriptors with the same path, so the result does not depend on
  the sorting algorithm.
\<close>

definition sortFiles :: "TarballFile list \<Rightarrow> TarballFile list" where
  "sortFiles fs = sort_key Path fs"

text \<open>
  The writer.  \<open>openFileInfo\<close> is a pointer to one of the descriptors of \<open>files\<close> in the
  source and is compared by identity; the descriptors of a writer have distinct paths,
  so the pointer is modelled by the descriptor it points to.  \<open>openFile\<close> is the open
  handle, \<open>None\<close> for nil; a handle is the resolved name of the file it was opened on.
\<close>

record VirtualTarballWriter =
  files :: "TarballFile list"
  size :: int
  openFileInfo :: "TarballFile option"
  openFile :: "string list option"

definition bad_segment :: "string \<Rightarrow> bool" where
  "bad_segment p = (p = ''.'' \<or> p = ''..'')"

text \<open>
  The loop of \<open>NewVirtualTarballWriter\<close>: \<open>uniquePaths\<close> is the map of the paths seen,
  \<open>sz\<close> the running total, \<open>acc\<close> the list \<open>filesInternal\<close>.  The offset of a
  descriptor is assigned here, in the order of the input; the sums \<open>f.Size + 1\<close> and
  \<open>size += ...\<close> are 64-bit sums.  The source writes the
  offset through the pointer it was given; the model gives every writer its own
  descriptors, as a sender and a receiver have.
\<close>

primrec validate_loop ::
  "TarballFile list \<Rightarrow> (string \<rightharpoonup> string) \<Rightarrow> int \<Rightarrow> TarballFile list
     \<Rightarrow> error + (TarballFile list \<times> int)" where
  "validate_loop [] = (\<lambda>uniquePaths sz acc. Inr (acc, sz))"
| "validate_loop (f # rest) = (\<lambda>uniquePaths sz acc.
     if IsAbs (Path f) then Inl ErrBadPAth
     else if list_ex bad_segment (Split Separator (Path f)) then Inl ErrBadPAth
     else if uniquePaths (Path f) \<noteq> None then Inl ErrDuplicatePaths
     else validate_loop rest (uniquePaths(Path f \<mapsto> Path f))
            (int64 (sz + int64 (Size f + 1))) (acc @ [f\<lparr>offset := sz\<rparr>]))"

definition NewVirtualTarballWriter :: "TarballFile list \<Rightarrow> error + VirtualTarballWriter" where
  "NewVirtualTarballWriter fs =
     (case validate_loop fs Map.empty 0 [] of
        Inl e \<Rightarrow> Inl e
      | Inr (filesInternal, sz) \<Rightarrow>
          Inr \<lparr>files = sortFiles filesInternal, size = sz,
               openFileInfo = None, openFile = None\<rparr>)"

section \<open>The file system\<close>

text \<open>
  The operating system is the environment of the writer.  It is modelled by a small
  file system in memory: a node is a regular file (its bytes and permission bits), a
  directory or a symbolic link; nodes are named by the list of the components of their
  path below the root, and the file system has a working directory.  An operation
  returns the error of the system call (\<open>None\<close> for success) and the file system after
  the call.  The owner of every node is the user of the process.
\<close>

datatype node = File "byte list" FileMode | Dir FileMode | Link string

record filesystem =
  nodes :: "string list \<rightharpoonup> node"
  cwd :: "string list"

fun clean :: "string list \<Rightarrow> string list \<Rightarrow> string list" where
  "clean k [] = k"
| "clean k (c # cs) =
     (if c = [] \<or> c = ''.'' then clean k cs
      else if c = ''..'' then clean (butlast k) cs
      else clean (k @ [c]) cs)"

definition resolve :: "filesystem \<Rightarrow> string \<Rightarrow> string list" where
  "resolve fs p = clean (if IsAbs p then [] else cwd fs) (Split Separator p)"

definition is_dir :: "node option \<Rightarrow> bool" where
  "is_dir n = (case n of Some (Dir m) \<Rightarrow> True | _ \<Rightarrow> False)"

text \<open>Every proper ancestor of a name must be a directory.\<close>

definition walk :: "filesystem \<Rightarrow> string list \<Rightarrow> oserr option" where
  "walk fs k =
     (case filter (\<lambda>p. \<not> is_dir (nodes fs p)) (map (\<lambda>n. take n k) [1..<length k]) of
        [] \<Rightarrow> None
      | p # _ \<Rightarrow> (if nodes fs p = None then Some ENOENT else Some ENOTDIR))"

definition perm_bits :: "FileMode \<Rightarrow> FileMode" where
  "perm_bits m = m AND 511"

definition Lstat :: "filesystem \<Rightarrow> string \<Rightarrow> oserr option" where
  "Lstat fs name =
     (let k = resolve fs name in
      case walk fs k of
        Some e \<Rightarrow> Some e
      | None \<Rightarrow> (if k = [] then None
                 else case nodes fs k of None \<Rightarrow> Some ENOENT | Some n \<Rightarrow> None))"

definition IsNotExist :: "oserr \<Rightarrow> bool" where
  "IsNotExist e = (e = ENOENT)"

definition IsPermission :: "oserr \<Rightarrow> bool" where
  "IsPermission e = (e = EACCES)"

definition Getwd :: "filesystem \<Rightarrow> oserr + string" where
  "Getwd fs = Inr (if cwd fs = [] then [Separator] else concat (map (\<lambda>c. Separator # c) (cwd fs)))"

text \<open>
  A symbolic link at the end of a name is followed once by the operations that follow
  links; the destination is read relative to the directory of the link.
\<close>

definition follow :: "filesystem \<Rightarrow> string list \<Rightarrow> string list" where
  "follow fs k =
     (case nodes fs k of
        Some (Link d) \<Rightarrow> clean (if IsAbs d then [] else butlast k) (Split Separator d)
      | _ \<Rightarrow> k)"

definition Chdir :: "filesystem \<Rightarrow> string \<Rightarrow> oserr option \<times> filesystem" where
  "Chdir fs name =
     (let k0 = resolve fs name in
      case walk fs k0 of
        Some e \<Rightarrow> (Some e, fs)
      | None \<Rightarrow>
          (let k = follow fs k0 in
           if k = [] then (None, fs\<lparr>cwd := k\<rparr>)
           else case nodes fs k of
                  None \<Rightarrow> (Some ENOENT, fs)
                | Some (Dir m) \<Rightarrow> (None, fs\<lparr>cwd := k\<rparr>)
                | Some (File c m) \<Rightarrow> (Some ENOTDIR, fs)
                | Some (Link d) \<Rightarrow> (Some ELOOP, fs)))"

text \<open>\<open>os.Symlink oldname newname\<close> creates \<open>newname\<close> as a link to \<open>oldname\<close>.\<close>

definition Symlink :: "filesystem \<Rightarrow> string \<Rightarrow> string \<Rightarrow> oserr option \<times> filesystem" where
  "Symlink fs oldname newname =
     (let k = resolve fs newname in
      case walk fs k of
        Some e \<Rightarrow> (Some e, fs)
      | None \<Rightarrow>
          (if k = [] \<or> nodes fs k \<noteq> None then (Some EEXIST, fs)
           else (None, fs\<lparr>nodes := (nodes fs)(k \<mapsto> Link oldname)\<rparr>)))"

text \<open>\<open>os.MkdirAll\<close>: the directories created before an error stay.\<close>

fun mkdirs :: "string list list \<Rightarrow> FileMode \<Rightarrow> filesystem \<Rightarrow> oserr option \<times> filesystem" where
  "mkdirs [] m fs = (None, fs)"
| "mkdirs (k # ks) m fs =
     (case nodes fs k of
        None \<Rightarrow> mkdirs ks m (fs\<lparr>nodes := (nodes fs)(k \<mapsto> Dir (perm_bits m))\<rparr>)
      | Some (Dir d) \<Rightarrow> mkdirs ks m fs
      | Some (File c d) \<Rightarrow> (Some ENOTDIR, fs)
      | Some (Link d) \<Rightarrow> (Some ELOOP, fs))"

definition MkdirAll :: "filesystem \<Rightarrow> string \<Rightarrow> FileMode \<Rightarrow> oserr option \<times> filesystem" where
  "MkdirAll fs name m =
     (let k = resolve fs name in mkdirs (map (\<lambda>n. take n k) [1..<Suc (length k)]) m fs)"

text \<open>
  \<open>os.OpenFile\<close> with the flags \<open>O_WRONLY|O_CREATE\<close>, the only ones the writer uses: a
  missing file is created empty, an existing file must be writable by its owner.
\<close>

definition OpenFile ::
  "filesystem \<Rightarrow> string \<Rightarrow> FileMode \<Rightarrow> (oserr + string list) \<times> filesystem" where
  "OpenFile fs name m =
     (let k0 = resolve fs name in
      case walk fs k0 of
        Some e \<Rightarrow> (Inl e, fs)
      | None \<Rightarrow>
          (let k = follow fs k0 in
           if k = [] then (Inl EISDIR, fs)
           else case nodes fs k of
                  None \<Rightarrow> (Inr k, fs\<lparr>nodes := (nodes fs)(k \<mapsto> File [] (perm_bits m))\<rparr>)
                | Some (File c d) \<Rightarrow> (if d AND 128 = 0 then (Inl EACCES, fs) else (Inr k, fs))
                | Some (Dir d) \<Rightarrow> (Inl EISDIR, fs)
                | Some (Link d) \<Rightarrow> (Inl ELOOP, fs)))"

definition Chmod :: "filesystem \<Rightarrow> string \<Rightarrow> FileMode \<Rightarrow> oserr option \<times> filesystem" where
  "Chmod fs name m =
     (let k0 = resolve fs name in
      case walk fs k0 of
        Some e \<Rightarrow> (Some e, fs)
      | None \<Rightarrow>
          (let k = follow fs k0 in
           case nodes fs k of
             None \<Rightarrow> (Some ENOENT, fs)
           | Some (File c d) \<Rightarrow> (None, fs\<lparr>nodes := (nodes fs)(k \<mapsto> File c (perm_bits m))\<rparr>)
           | Some (Dir d) \<Rightarrow> (None, fs\<lparr>nodes := (nodes fs)(k \<mapsto> Dir (perm_bits m))\<rparr>)
           | Some (Link d) \<Rightarrow> (Some ELOOP, fs)))"

text \<open>The methods of an open file.  A nil file reports \<open>ErrInvalid\<close>.\<close>

definition file_Chmod ::
  "filesystem \<Rightarrow> string list option \<Rightarrow> FileMode \<Rightarrow> oserr option \<times> filesystem" where
  "file_Chmod fs f m =
     (case f of
        None \<Rightarrow> (Some ErrInvalid, fs)
      | Some k \<Rightarrow>
          (case nodes fs k of
             Some (File c d) \<Rightarrow> (None, fs\<lparr>nodes := (nodes fs)(k \<mapsto> File c (perm_bits m))\<rparr>)
           | _ \<Rightarrow> (Some EINVAL, fs)))"

definition file_Close :: "filesystem \<Rightarrow> string list option \<Rightarrow> oserr option \<times> filesystem" where
  "file_Close fs f = (case f of None \<Rightarrow> (Some ErrInvalid, fs) | Some k \<Rightarrow> (None, fs))"

definition file_Truncate ::
  "filesystem \<Rightarrow> string list option \<Rightarrow> int \<Rightarrow> oserr option \<times> filesystem" where
  "file_Truncate fs f n =
     (case f of
        None \<Rightarrow> (Some ErrInvalid, fs)
      | Some k \<Rightarrow>
          (case nodes fs k of
             Some (File c d) \<Rightarrow>
               (if n < 0 then (Some EINVAL, fs)
                else (None, fs\<lparr>nodes := (nodes fs)
                        (k \<mapsto> File (take (nat n) c @ replicate (nat n - length c) 0) d)\<rparr>))
           | _ \<Rightarrow> (Some EINVAL, fs)))"

text \<open>Writing at an offset overwrites, and extends the file with zero bytes where needed.\<close>

definition write_at :: "byte list \<Rightarrow> nat \<Rightarrow> byte list \<Rightarrow> byte list" where
  "write_at c off p =
     take off c @ replicate (off - length c) 0 @ p @ drop (off + length p) c"

definition file_WriteAt ::
  "filesystem \<Rightarrow> string list option \<Rightarrow> byte list \<Rightarrow> int \<Rightarrow> (nat \<times> oserr option) \<times> filesystem" where
  "file_WriteAt fs f p off =
     (case f of
        None \<Rightarrow> ((0, Some ErrInvalid), fs)
      | Some k \<Rightarrow>
          (case nodes fs k of
             Some (File c d) \<Rightarrow>
               (if off < 0 then ((0, Some EINVAL), fs)
                else ((length p, None),
                      fs\<lparr>nodes := (nodes fs)(k \<mapsto> File (write_at c (nat off) p) d)\<rparr>))
           | _ \<Rightarrow> ((0, Some EINVAL), fs)))"

section \<open>Writing\<close>

definition ModeSymlink :: FileMode where
  "ModeSymlink = 134217728"

text \<open>
  \<open>closeFile\<close>: the mode of the descriptor is applied to the open file, then the file
  is closed.  When the mode cannot be applied, the file stays open.
\<close>

definition closeFile ::
  "VirtualTarballWriter \<Rightarrow> filesystem \<Rightarrow> error option \<times> VirtualTarballWriter \<times> filesystem" where
  "closeFile t fs =
     (case openFileInfo t of
        None \<Rightarrow> (None, t\<lparr>openFile := None\<rparr>, fs)
      | Some info \<Rightarrow>
          (case openFile t of
             None \<Rightarrow> (None, t\<lparr>openFileInfo := None\<rparr>, fs)
           | Some k \<Rightarrow>
               (case file_Chmod fs (Some k) (Mode info) of
                  (Some e, fs1) \<Rightarrow> (Some (OSError e), t, fs1)
                | (None, fs1) \<Rightarrow>
                    (case file_Close fs1 (Some k) of
                       (Some e, fs2) \<Rightarrow> (Some (OSError e), t, fs2)
                     | (None, fs2) \<Rightarrow>
                         (None, t\<lparr>openFile := None, openFileInfo := None\<rparr>, fs2)))))"

definition Close ::
  "VirtualTarballWriter \<Rightarrow> filesystem \<Rightarrow> error option \<times> VirtualTarballWriter \<times> filesystem" where
  "Close t fs = closeFile t fs"

text \<open>
  \<open>makeSymlink\<close>.  The function returns with no error and without creating anything
  when \<open>os.Lstat\<close> reports that the path does not exist; when the path exists it
  changes into \<open>filepath.Base\<close> of the path and calls \<open>os.Symlink\<close> with the path as the
  old name and the destination as the new name.  The deferred change back to the
  former working directory assigns to the local \<open>err\<close> after the result has been
  set, so the error returned is the one of \<open>os.Symlink\<close>.
\<close>

definition makeSymlink :: "TarballFile \<Rightarrow> filesystem \<Rightarrow> error option \<times> filesystem" where
  "makeSymlink tf fs =
     (case Lstat fs (Path tf) of
        Some e \<Rightarrow> (if IsNotExist e then (None, fs) else (Some (OSError e), fs))
      | None \<Rightarrow>
          (case Getwd fs of
             Inl e \<Rightarrow> (Some (OSError e), fs)
           | Inr wd \<Rightarrow>
               (case Chdir fs (Base (Path tf)) of
                  (Some e, fs1) \<Rightarrow> (Some (OSError e), fs1)
                | (None, fs1) \<Rightarrow>
                    (case Symlink fs1 (Path tf) (SymlinkDestination tf) of
                       (err, fs2) \<Rightarrow> (map_option OSError err, snd (Chdir fs2 wd))))))"

text \<open>
  The parts of the body of the loop of \<open>WriteAt\<close>.  \<open>WriteAt_truncate\<close> reserves the
  size of the file just opened and makes it the open file of the writer.
\<close>

definition WriteAt_truncate ::
  "TarballFile \<Rightarrow> string list \<Rightarrow> VirtualTarballWriter \<Rightarrow> filesystem
     \<Rightarrow> error option \<times> VirtualTarballWriter \<times> filesystem" where
  "WriteAt_truncate tf f t fs =
     (case file_Truncate fs (Some f) (Size tf) of
        (Some e, fs1) \<Rightarrow> (Some (OSError e), t, fs1)
      | (None, fs1) \<Rightarrow> (None, t\<lparr>openFile := Some f, openFileInfo := Some tf\<rparr>, fs1))"

text \<open>
  \<open>WriteAt_create\<close>: the branch "create file if not already" of a descriptor that
  is not the open one.  The error of \<open>closeFile\<close> is dropped, as in the source.
\<close>

definition WriteAt_create ::
  "TarballFile \<Rightarrow> VirtualTarballWriter \<Rightarrow> filesystem
     \<Rightarrow> error option \<times> VirtualTarballWriter \<times> filesystem" where
  "WriteAt_create tf t fs =
     (if openFileInfo t = Some tf then (None, t, fs)
      else
        let (t1, fs1) = (if openFileInfo t \<noteq> None
                         then (case closeFile t fs of (e, t', fs') \<Rightarrow> (t', fs'))
                         else (t, fs));
            dir = SplitDir (Path tf)
        in case (if dir \<noteq> [] then MkdirAll fs1 dir (Mode tf OR 448) else (None, fs1)) of
             (Some e, fs2) \<Rightarrow> (Some (OSError e), t1, fs2)
           | (None, fs2) \<Rightarrow>
               (case OpenFile fs2 (Path tf) (Mode tf OR 448) of
                  (Inr f, fs3) \<Rightarrow> WriteAt_truncate tf f t1 fs3
                | (Inl e, fs3) \<Rightarrow>
                    (if IsPermission e
                     then (case Chmod fs3 (Path tf) (Mode tf OR 448) of
                             (Some e', fs4) \<Rightarrow> (Some (OSError e'), t1, fs4)
                           | (None, fs4) \<Rightarrow>
                               (case OpenFile fs4 (Path tf) (Mode tf OR 448) of
                                  (Inl e'', fs5) \<Rightarrow> (Some (OSError e''), t1, fs5)
                                | (Inr f, fs5) \<Rightarrow> WriteAt_truncate tf f t1 fs5))
                     else (Some (OSError e), t1, fs3))))"

text \<open>The choice between the symbolic link, the file of positive size, and nothing.\<close>

definition WriteAt_prepare ::
  "TarballFile \<Rightarrow> VirtualTarballWriter \<Rightarrow> filesystem
     \<Rightarrow> error option \<times> VirtualTarballWriter \<times> filesystem" where
  "WriteAt_prepare tf t fs =
     (if Mode tf AND ModeSymlink = ModeSymlink
      then (case makeSymlink tf fs of (e, fs1) \<Rightarrow> (e, t, fs1))
      else if Size tf > 0 then WriteAt_create tf t fs
      else (None, t, fs))"

text \<open>
  "Perform write": the bytes of the buffer that belong to the descriptor go to the
  open file of the writer.  The result is the error, or the file system, the rest of
  the buffer, the offset and the total after the write.
\<close>

definition WriteAt_write ::
  "TarballFile \<Rightarrow> VirtualTarballWriter \<Rightarrow> filesystem \<Rightarrow> byte list \<Rightarrow> int \<Rightarrow> int
     \<Rightarrow> (error \<times> filesystem) + (filesystem \<times> byte list \<times> int \<times> int)" where
  "WriteAt_write tf t fs remainder off tot =
     (let localOffset = off - offset tf in
      if localOffset < Size tf then
        (let p = (if localOffset + int (length remainder) > Size tf
                  then take (nat (Size tf - localOffset)) remainder else remainder)
         in if length p > 0 then
              (case file_WriteAt fs (openFile t) p localOffset of
                 ((n, Some e), fs1) \<Rightarrow> Inl (OSError e, fs1)
               | ((n, None), fs1) \<Rightarrow>
                   Inr (fs1, drop n remainder, off + int n, tot + int n))
            else Inr (fs, remainder, off, tot))
      else Inr (fs, remainder, off, tot))"

text \<open>"Expect trailing NUL padding byte".\<close>

definition WriteAt_padding ::
  "TarballFile \<Rightarrow> byte list \<Rightarrow> int \<Rightarrow> int \<Rightarrow> error + (byte list \<times> int \<times> int)" where
  "WriteAt_padding tf remainder off tot =
     (if off = offset tf + Size tf \<and> length remainder > 0 then
        (if hd remainder \<noteq> 0 then Inl ErrBadPaddingByte
         else Inr (tl remainder, off + 1, tot + 1))
      else Inr (remainder, off, tot))"

text \<open>
  The loop over the descriptors of the writer.  The result of \<open>WriteAt\<close> is the pair
  of the count and the error the source returns, with the writer and the file system
  as the call leaves them.
\<close>

type_synonym result = "(int \<times> error option) \<times> VirtualTarballWriter \<times> filesystem"

fun WriteAt_loop ::
  "TarballFile list \<Rightarrow> VirtualTarballWriter \<Rightarrow> filesystem \<Rightarrow> byte list \<Rightarrow> int \<Rightarrow> int
     \<Rightarrow> result" where
  "WriteAt_loop [] t fs remainder off tot = ((tot, None), t, fs)"
| "WriteAt_loop (tf # rest) t fs remainder off tot =
     (if off < offset tf \<or> off \<ge> offset tf + Size tf + 1
      then WriteAt_loop rest t fs remainder off tot
      else
        case WriteAt_prepare tf t fs of
          (Some e, t1, fs1) \<Rightarrow> ((0, Some e), t1, fs1)
        | (None, t1, fs1) \<Rightarrow>
            (case WriteAt_write tf t1 fs1 remainder off tot of
               Inl (e, fs2) \<Rightarrow> ((0, Some e), t1, fs2)
             | Inr (fs2, remainder2, off2, tot2) \<Rightarrow>
                 (case WriteAt_padding tf remainder2 off2 tot2 of
                    Inl e \<Rightarrow> ((0, Some e), t1, fs2)
                  | Inr (remainder3, off3, tot3) \<Rightarrow>
                      (if length remainder3 = 0 then ((tot3, None), t1, fs2)
                       else WriteAt_loop rest t1 fs2 remainder3 off3 tot3))))"

text \<open>\<open>WriteAt\<close>: the buffer is \<open>None\<close> for a nil slice.\<close>

definition WriteAt ::
  "VirtualTarballWriter \<Rightarrow> filesystem \<Rightarrow> byte list option \<Rightarrow> int \<Rightarrow> result" where
  "WriteAt t fs buf off =
     (case buf of
        None \<Rightarrow> ((0, Some ErrNilBuffer), t, fs)
      | Some b \<Rightarrow>
          (if off < 0 \<or> off \<ge> size t then ((0, Some ErrOutOfRange), t, fs)
           else WriteAt_loop (files t) t fs b off 0))"

section \<open>The server\<close>

text \<open>
  Go's integer division truncates towards zero and panics on a zero divisor; the
  callers below check the divisor first.
\<close>

definition quot :: "int \<Rightarrow> int \<Rightarrow> int" where
  "quot a b = (if (a < 0) = (b < 0) then \<bar>a\<bar> div \<bar>b\<bar> else - (\<bar>a\<bar> div \<bar>b\<bar>))"

text \<open>
  The byte order \<open>byteOrder\<close> is a variable of the package that the sources at hand
  do not declare; the earlier version of the server among them uses
  \<open>binary.LittleEndian\<close>, and so does the model.
\<close>

definition le_bytes :: "nat \<Rightarrow> 'a::len word \<Rightarrow> byte list" where
  "le_bytes n w = map (\<lambda>i. ucast (drop_bit (8 * i) w)) [0..<n]"

definition Uint16 :: "byte list \<Rightarrow> 16 word" where
  "Uint16 b = ucast (b ! 0) OR push_bit 8 (ucast (b ! 1))"

text \<open>
  Modelled from the spec: the constants \<open>metadataSectionMsgSize\<close> and
  \<open>metadataHeaderMsgSize\<close> are not declared in the sources at hand; the
  specification gives a metadata section a 2-byte index and the metadata header a
  2-byte count.  The constants \<open>protocolControlPrefixSize\<close> and
  \<open>protocolDataMsgSize\<close> are parameters of the definitions that use them.
\<close>

definition metadataSectionMsgSize :: int where
  "metadataSectionMsgSize = 2"

definition metadataHeaderMsgSize :: int where
  "metadataHeaderMsgSize = 2"

datatype opcode =
    AnnounceTarball
  | RequestMetadataHeader
  | RespondMetadataHeader
  | RequestMetadataSection
  | RespondMetadataSection
  | RequestDataSections

text \<open>
  What the server hands to the transport: the arguments of \<open>controlToClientMessage\<close>
  and of \<open>dataMessage\<close>, whose encodings are not part of the sources at hand.
\<close>

datatype message =
    ControlToClient "byte list" opcode "byte list"
  | Data "byte list" int "byte list"

text \<open>
  The server.  \<open>tb_size\<close>, \<open>tb_files\<close> and \<open>tb_HashId\<close> are what the server reads of
  its \<open>VirtualTarballReader\<close>, \<open>datagramSize\<close> what it reads of its \<open>Multicast\<close>.
  A \<open>time.Time\<close> is the number of nanoseconds since the zero time, so \<open>IsZero\<close>
  is equality with 0.
\<close>

record Server =
  tb_size :: int
  tb_files :: "TarballFile list"
  tb_HashId :: "byte list"
  datagramSize :: int
  metadataHeader :: "byte list"
  metadataSections :: "byte list list"
  lastClientDataRequest :: int
  nextRegion :: int
  regionSize :: "16 word"
  regionCount :: int

definition NewServer :: "int \<Rightarrow> int \<Rightarrow> TarballFile list \<Rightarrow> byte list \<Rightarrow> Server" where
  "NewServer dgram sz fs h =
     \<lparr>tb_size = sz, tb_files = fs, tb_HashId = h, datagramSize = dgram,
      metadataHeader = [], metadataSections = [], lastClientDataRequest = 0,
      nextRegion = 0, regionSize = 0, regionCount = 0\<rparr>"

subsection \<open>The metadata blob and its sections\<close>

text \<open>
  The blob: the size, the number of files, and for every file its path with its
  length, its size, its mode and its hash.  Writing values of fixed width to a buffer
  in memory does not fail, so the error that the source checks after the writes is nil.
\<close>

definition writeFile :: "TarballFile \<Rightarrow> byte list" where
  "writeFile f =
     le_bytes 2 (word_of_nat (length (Path f)) :: 16 word) @ map of_char (Path f)
     @ le_bytes 8 (word_of_int (Size f) :: 64 word)
     @ le_bytes 4 (Mode f)
     @ Hash f"

definition metadata :: "Server \<Rightarrow> byte list" where
  "metadata s =
     le_bytes 8 (word_of_int (tb_size s) :: 64 word)
     @ le_bytes 4 (word_of_nat (length (tb_files s)) :: 32 word)
     @ concat (map writeFile (tb_files s))"

text \<open>
  The number of sections.  \<open>None\<close> is a run-time panic: the division by a section
  size of zero.
\<close>

definition sectionCount :: "byte list \<Rightarrow> int \<Rightarrow> int option" where
  "sectionCount md sectionSize =
     (if sectionSize = 0 then None
      else let c = quot (int (length md)) sectionSize
           in Some (if c * sectionSize < int (length md) then c + 1 else c))"

text \<open>
  The loop "slice into sections": \<open>k\<close> counts the iterations that remain, \<open>n\<close> is
  the index of the section, \<open>out\<close> the offset \<open>o\<close> into the blob, \<open>acc\<close> the
  sections so far.  The offset advances by the end point \<open>e\<close>, as the source has it.
  \<open>make\<close> panics when the capacity \<open>metadataSectionMsgSize+(e-o)\<close> is below the
  length \<open>metadataSectionMsgSize\<close>, the slice expression \<open>md[o:e]\<close> when \<open>o\<close> is
  negative; \<open>None\<close> stands for the panic.
\<close>

fun slice_loop ::
  "byte list \<Rightarrow> int \<Rightarrow> nat \<Rightarrow> nat \<Rightarrow> int \<Rightarrow> byte list list \<Rightarrow> byte list list option" where
  "slice_loop md sectionSize 0 n out acc = Some acc"
| "slice_loop md sectionSize (Suc k) n out acc =
     (let e0 = out + sectionSize;
          e = (if e0 > int (length md) then int (length md) else e0)
      in if metadataSectionMsgSize + (e - out) < metadataSectionMsgSize \<or> out < 0 then None
         else
           let ms = le_bytes (nat metadataSectionMsgSize) (word_of_nat n :: 16 word)
                    @ take (nat (e - out)) (drop (nat out) md)
           in slice_loop md sectionSize k (Suc n) (out + e) (acc @ [ms]))"

definition slice_sections :: "byte list \<Rightarrow> int \<Rightarrow> byte list list option" where
  "slice_sections md sectionSize =
     (case sectionCount md sectionSize of
        None \<Rightarrow> None
      | Some c \<Rightarrow> (if c < 0 then None else slice_loop md sectionSize (nat c) 0 0 []))"

text \<open>What a client does with the sections: strip the 2-byte index, concatenate.\<close>

definition reassemble :: "byte list list \<Rightarrow> byte list" where
  "reassemble secs = concat (map (drop 2) secs)"

subsection \<open>Regions\<close>

text \<open>
  The region size is the difference converted to \<open>uint16\<close>; the region count is
  \<open>None\<close> for the panic of the division by a region size of zero.
\<close>

definition region_size :: "int \<Rightarrow> int \<Rightarrow> 16 word" where
  "region_size dgram protocolDataMsgSize = word_of_int (dgram - protocolDataMsgSize)"

definition region_count :: "int \<Rightarrow> 16 word \<Rightarrow> int option" where
  "region_count sz rs =
     (if rs = 0 then None
      else let c = quot sz (uint rs)
           in Some (if uint rs * c < sz then c + 1 else c))"

text \<open>The start of \<open>Run\<close>, up to the loop.\<close>

definition Run_setup :: "int \<Rightarrow> int \<Rightarrow> Server \<Rightarrow> Server option" where
  "Run_setup protocolControlPrefixSize protocolDataMsgSize s =
     (let md = metadata s;
          sectionSize = datagramSize s - (protocolControlPrefixSize + metadataSectionMsgSize)
      in case slice_sections md sectionSize of
           None \<Rightarrow> None
         | Some secs \<Rightarrow>
             (case region_count (tb_size s) (region_size (datagramSize s) protocolDataMsgSize) of
                None \<Rightarrow> None
              | Some rc \<Rightarrow>
                  Some (s\<lparr>metadataSections := secs,
                          metadataHeader :=
                            le_bytes (nat metadataHeaderMsgSize)
                              (word_of_nat (length secs) :: 16 word),
                          regionSize := region_size (datagramSize s) protocolDataMsgSize,
                          nextRegion := 0,
                          regionCount := rc\<rparr>)))"

subsection \<open>The loop\<close>

text \<open>
  A Go slice: its elements, and the elements of its backing array between its length
  and its capacity.  The slice expression \<open>data[0:h]\<close> is checked against the
  capacity; \<open>None\<close> is the panic.
\<close>

record slice =
  elems :: "byte list"
  spare :: "byte list"

definition cap :: "slice \<Rightarrow> nat" where
  "cap d = length (elems d) + length (spare d)"

definition slice_upto :: "slice \<Rightarrow> nat \<Rightarrow> byte list option" where
  "slice_upto d h = (if h \<le> cap d then Some (take h (elems d @ spare d)) else None)"

text \<open>
  \<open>processControl\<close>.  \<open>extractServerMessage\<close> is not part of the sources at hand: the
  function is given its result, and the time that \<open>time.Now\<close> returns.  The result
  is \<open>None\<close> for a run-time panic, or else the error returned, the messages handed to
  the transport and the server.
\<close>

definition processControl ::
  "Server \<Rightarrow> int \<Rightarrow> error + (byte list \<times> opcode \<times> slice)
     \<Rightarrow> (error option \<times> message list \<times> Server) option" where
  "processControl s now extracted =
     (case extracted of
        Inl err \<Rightarrow> Some (Some err, [], s)
      | Inr (hashId, op, data) \<Rightarrow>
          (if hashId \<noteq> tb_HashId s then Some (None, [], s)
           else case op of
             RequestMetadataHeader \<Rightarrow>
               Some (None, [ControlToClient hashId RespondMetadataHeader (metadataHeader s)], s)
           | RequestMetadataSection \<Rightarrow>
               (case slice_upto data 2 of
                  None \<Rightarrow> None
                | Some b \<Rightarrow>
                    (let sectionIndex = Uint16 b in
                     if sectionIndex \<ge> (word_of_nat (length (metadataSections s)) :: 16 word)
                     then Some (None, [], s)
                     else if unat sectionIndex < length (metadataSections s)
                     then Some (None,
                            [ControlToClient hashId RespondMetadataSection
                               (metadataSections s ! unat sectionIndex)], s)
                     else None))
           | RequestDataSections \<Rightarrow> Some (None, [], s\<lparr>lastClientDataRequest := now\<rparr>)
           | _ \<Rightarrow> Some (None, [], s)))"

text \<open>
  One turn of the loop of \<open>Run\<close> ends in one of three ways, each with the messages
  handed to the transport during the turn.
\<close>

datatype step = Continue "message list" Server | Return "message list" error | Panics

text \<open>
  The \<open>default\<close> branch.  \<open>ReadAt\<close> of the reader is not part of the sources at hand
  and is a parameter: given the length of the buffer and the offset it answers with an
  error or with the bytes read.  \<open>SendData\<close> is the answer of the transport.
\<close>

definition Run_default ::
  "(nat \<Rightarrow> int \<Rightarrow> error + byte list) \<Rightarrow> (message \<Rightarrow> error option) \<Rightarrow> int \<Rightarrow> Server \<Rightarrow> step" where
  "Run_default ReadAt SendData now s =
     (if lastClientDataRequest s = 0 then Continue [] s
      else if now - lastClientDataRequest s \<ge> 500 * 1000000 then Continue [] s
      else
        case ReadAt (unat (regionSize s)) (nextRegion s) of
          Inl e \<Rightarrow> (if e = ErrOutOfRange then Continue [] s else Return [] e)
        | Inr buf \<Rightarrow>
            (let m = Data (tb_HashId s) (nextRegion s) buf in
             case SendData m of
               Some e \<Rightarrow> Return [m] e
             | None \<Rightarrow>
                 Continue [m]
                   (s\<lparr>nextRegion :=
                        (if nextRegion s + 1 \<ge> regionCount s then 0 else nextRegion s + 1)\<rparr>)))"

text \<open>The branch of the ticker.\<close>

definition Run_ticker :: "(message \<Rightarrow> error option) \<Rightarrow> Server \<Rightarrow> step" where
  "Run_ticker SendControlToClient s =
     (let announceMsg = ControlToClient (tb_HashId s) AnnounceTarball [] in
      case SendControlToClient announceMsg of
        Some e \<Rightarrow> Return [announceMsg] e
      | None \<Rightarrow> Continue [announceMsg] s)"

text \<open>
  The branch of a control message: the error of the message ends the loop, the
  error that \<open>processControl\<close> returns is dropped.
\<close>

definition Run_control ::
  "error option \<Rightarrow> error + (byte list \<times> opcode \<times> slice) \<Rightarrow> int \<Rightarrow> Server \<Rightarrow> step" where
  "Run_control ctrlError extracted now s =
     (case ctrlError of
        Some e \<Rightarrow> Return [] e
      | None \<Rightarrow>
          (case processControl s now extracted of
             None \<Rightarrow> Panics
           | Some (err, ms, s') \<Rightarrow> Continue ms s'))"

text \<open>
  What \<open>select\<close> chooses in a turn is the choice of the environment: a control message
  (its error, what \<open>extractServerMessage\<close> makes of it, the time of its handling),
  a tick, or neither (with the time read in the \<open>default\<close> branch).
\<close>

datatype event =
    ControlToServer "error option" "error + (byte list \<times> opcode \<times> slice)" int
  | Ticker
  | Default int

definition Run_step ::
  "(nat \<Rightarrow> int \<Rightarrow> error + byte list) \<Rightarrow> (message \<Rightarrow> error option) \<Rightarrow> (message \<Rightarrow> error option)
     \<Rightarrow> event \<Rightarrow> Server \<Rightarrow> step" where
  "Run_step ReadAt SendData SendControlToClient ev s =
     (case ev of
        ControlToServer ctrlError extracted now \<Rightarrow> Run_control ctrlError extracted now s
      | Ticker \<Rightarrow> Run_ticker SendControlToClient s
      | Default now \<Rightarrow> Run_default ReadAt SendData now s)"

text \<open>
  The loop over the turns the environment chooses: the messages sent, and where the
  loop stands after them.
\<close>

primrec Run_loop ::
  "event list \<Rightarrow> (nat \<Rightarrow> int \<Rightarrow> error + byte list) \<Rightarrow> (message \<Rightarrow> error option)
     \<Rightarrow> (message \<Rightarrow> error option) \<Rightarrow> Server \<Rightarrow> step" where
  "Run_loop [] = (\<lambda>ReadAt SendData SendControlToClient s. Continue [] s)"
| "Run_loop (ev # evs) = (\<lambda>ReadAt SendData SendControlToClient s.
     case Run_step ReadAt SendData SendControlToClient ev s of
       Continue ms s' \<Rightarrow>
         (case Run_loop evs ReadAt SendData SendControlToClient s' of
            Continue ms' s'' \<Rightarrow> Continue (ms @ ms') s''
          | Return ms' e \<Rightarrow> Return (ms @ ms') e
          | Panics \<Rightarrow> Panics)
     | Return ms e \<Rightarrow> Return ms e
     | Panics \<Rightarrow> Panics)"

section \<open>Requests for data in a run of the server\<close>

text \<open>
  The words of the specification: a data request is recorded when a control message
  without error, for the transfer of the server and with the opcode
  \<open>RequestDataSections\<close>, is handled; \<open>spec_last_request\<close> is the time of the most
  recent one among the turns of a run, if there is any.
\<close>

definition spec_data_request :: "byte list \<Rightarrow> event \<Rightarrow> int option" where
  "spec_data_request h ev =
     (case ev of
        ControlToServer None (Inr (h', RequestDataSections, d)) now \<Rightarrow>
          (if h' = h then Some now else None)
      | _ \<Rightarrow> None)"

fun spec_last_request :: "byte list \<Rightarrow> event list \<Rightarrow> int option" where
  "spec_last_request h [] = None"
| "spec_last_request h (ev # evs) =
     (case spec_last_request h evs of
        Some t \<Rightarrow> Some t
      | None \<Rightarrow> spec_data_request h ev)"

text \<open>A turn emits data when it hands a data message to the transport.\<close>

fun is_data :: "message \<Rightarrow> bool" where
  "is_data (Data h r p) = True"
| "is_data (ControlToClient h op p) = False"

fun emits_data :: "step \<Rightarrow> bool" where
  "emits_data (Continue ms s) = list_ex is_data ms"
| "emits_data (Return ms e) = list_ex is_data ms"
| "emits_data Panics = False"

section \<open>The reader\<close>

text \<open>
  Modelled from the spec: \<open>ReadAt\<close> of \<open>VirtualTarballReader\<close> is not part of the
  sources at hand.  The specification gives the reader \<open>readAt(buffer, virtualOffset)\<close>
  over the same layout as the writer and lets it fail with \<open>OutOfRange\<close> when the offset
  is outside \<open>[0, totalSize)\<close>.  The virtual byte space is a parameter; a read returns
  the bytes from the offset on, as many as the buffer holds and the space has.
\<close>

definition spec_ReadAt :: "byte list \<Rightarrow> nat \<Rightarrow> int \<Rightarrow> error + byte list" where
  "spec_ReadAt space n off =
     (if off < 0 \<or> off \<ge> int (length space) then Inl ErrOutOfRange
      else Inr (take n (drop (nat off) space)))"

text \<open>The region index and the length of the payload of a data message.\<close>

fun region_and_length :: "message \<Rightarrow> (int \<times> nat) option" where
  "region_and_length (Data h r p) = Some (r, length p)"
| "region_and_length (ControlToClient h op p) = None"

section \<open>Layouts in the order of the list\<close>

text \<open>
  The descriptors of a list lie one after the other from an offset on, each with its
  terminator byte, and no size is negative.  This is the layout of a writer whose
  list was given to the constructor in the order of the paths.
\<close>

fun contiguous :: "int \<Rightarrow> TarballFile list \<Rightarrow> bool" where
  "contiguous start [] = True"
| "contiguous start (f # rest) =
     (offset f = start \<and> 0 \<le> Size f \<and> contiguous (start + Size f + 1) rest)"

definition laid_out :: "VirtualTarballWriter \<Rightarrow> bool" where
  "laid_out t =
     (contiguous 0 (files t) \<and> size t = sum_list (map (\<lambda>f. Size f + 1) (files t)))"

section \<open>Inputs of the tests and of the examples\<close>

text \<open>A descriptor as the tests of the writer build it: a path, a size and the mode 0644.\<close>

definition regular :: "string \<Rightarrow> int \<Rightarrow> TarballFile" where
  "regular p n =
     \<lparr>Path = p, Size = n, Mode = 420, Hash = [], SymlinkDestination = [], offset = 0\<rparr>"

definition empty_fs :: filesystem where
  "empty_fs = \<lparr>nodes = Map.empty, cwd = []\<rparr>"

text \<open>\<open>TestWriteAt_SpanningFiles\<close>: two files of size 7 and the buffer of 14 bytes.\<close>

definition hello_files :: "TarballFile list" where
  "hello_files = [regular ''hello.txt'' 7, regular ''world.txt'' 7]"

definition hello_writer :: VirtualTarballWriter where
  "hello_writer =
     \<lparr>files = [regular ''hello.txt'' 7, (regular ''world.txt'' 7)\<lparr>offset := 8\<rparr>],
      size = 16, openFileInfo = None, openFile = None\<rparr>"

definition hello_world :: "byte list" where
  "hello_world = map of_char ''Hello, world!'' @ [10]"

text \<open>The same content with the terminator byte of each file.\<close>

definition hello_world_padded :: "byte list" where
  "hello_world_padded = map of_char ''Hello, '' @ [0] @ map of_char ''world!'' @ [10, 0]"

text \<open>\<open>TestWriteAt_OneFile\<close>: one file of size 3.\<close>

definition jim_writer :: VirtualTarballWriter where
  "jim_writer =
     \<lparr>files = [regular ''jim1.txt'' 3], size = 4, openFileInfo = None, openFile = None\<rparr>"

text \<open>A file of size 0.\<close>

definition empty_writer :: VirtualTarballWriter where
  "empty_writer =
     \<lparr>files = [regular ''empty.txt'' 0], size = 1, openFileInfo = None, openFile = None\<rparr>"

text \<open>A symbolic link, and a file system in which the link is already there.\<close>

definition link_writer :: VirtualTarballWriter where
  "link_writer =
     \<lparr>files = [\<lparr>Path = ''link'', Size = 0, Mode = ModeSymlink OR 511, Hash = [],
                SymlinkDestination = ''target'', offset = 0\<rparr>],
      size = 1, openFileInfo = None, openFile = None\<rparr>"

definition linked_fs :: filesystem where
  "linked_fs = \<lparr>nodes = [[''link''] \<mapsto> Link ''target''], cwd = []\<rparr>"

text \<open>The same two descriptors in two orders.\<close>

definition ab_files :: "TarballFile list" where
  "ab_files = [regular ''a'' 1, regular ''b'' 2]"

definition ba_files :: "TarballFile list" where
  "ba_files = [regular ''b'' 2, regular ''a'' 1]"

text \<open>The layout of the writer built from a list: the paths with their offsets.\<close>

definition layout :: "TarballFile list \<Rightarrow> (string \<times> int) list option" where
  "layout fs =
     (case NewVirtualTarballWriter fs of
        Inl e \<Rightarrow> None
      | Inr t \<Rightarrow> Some (map (\<lambda>f. (Path f, offset f)) (files t)))"

text \<open>
  The file of \<open>TestWriteAt_OneFile\<close> with an earlier content, and a buffer that
  carries the byte 1 where the terminator byte is expected.
\<close>

definition jim_fs :: filesystem where
  "jim_fs = \<lparr>nodes = [[''jim1.txt''] \<mapsto> File (map of_char ''old'') 420], cwd = []\<rparr>"

definition jim_bad :: "byte list" where
  "jim_bad = map of_char ''hi'' @ [10, 1]"

text \<open>
  A server for the file of \<open>TestWriteAt_OneFile\<close> with a hash of 32 bytes: its
  metadata blob has 66 bytes.  With a control prefix of 33 bytes, a datagram of 57
  bytes leaves 22 bytes to a section, one of 60 bytes leaves 25, one of 1500 bytes
  holds the blob in one section.
\<close>

definition jim_server :: "int \<Rightarrow> Server" where
  "jim_server dgram =
     NewServer dgram 4 [(regular ''jim1.txt'' 3)\<lparr>Hash := replicate 32 171\<rparr>] (replicate 32 1)"

definition started_server :: Server where
  "started_server =
     (jim_server 1500)
       \<lparr>metadataSections := [[0, 0] @ metadata (jim_server 1500)],
        metadataHeader := [1, 0], regionSize := 1459, regionCount := 1\<rparr>"

text \<open>A reader that fills the buffer with zero bytes, a transport that never fails.\<close>

definition zero_reader :: "nat \<Rightarrow> int \<Rightarrow> error + byte list" where
  "zero_reader n off = Inr (replicate n 0)"

definition sends :: "message \<Rightarrow> error option" where
  "sends m = None"

definition data_request :: "int \<Rightarrow> event" where
  "data_request now =
     ControlToServer None (Inr (replicate 32 1, RequestDataSections, \<lparr>elems = [], spare = []\<rparr>)) now"

text \<open>
  A server for one file of 2999 bytes, a virtual space of 3000 bytes: with datagrams of
  1500 bytes and a data message overhead of 41 bytes a region has 1459 bytes, and the
  space has three regions, the last of 82 bytes.  \<open>big_started\<close> is the server after
  the start of \<open>Run\<close>.  Every read of 1459 bytes at an offset below 3 lies inside the
  one file.
\<close>

definition big_server :: Server where
  "big_server =
     NewServer 1500 3000 [(regular ''big.bin'' 2999)\<lparr>Hash := replicate 32 171\<rparr>]
       (replicate 32 1)"

definition big_started :: Server where
  "big_started =
     big_server
       \<lparr>metadataSections := [[0, 0] @ metadata big_server],
        metadataHeader := [1, 0], regionSize := 1459, regionCount := 3\<rparr>"

definition big_space :: "byte list" where
  "big_space = replicate 2999 65 @ [0]"

section \<open>The errors of a write\<close>

text \<open>
  An error of the loop of \<open>WriteAt\<close> is \<open>ErrBadPaddingByte\<close> or an error of the
  operating system.
\<close>

lemma makeSymlink_error:
  "makeSymlink tf fs = (Some e, fs1) \<Longrightarrow> \<exists>x. e = OSError x"
  by (auto simp: makeSymlink_def Getwd_def split: option.splits if_splits prod.splits sum.splits)

lemma WriteAt_truncate_error:
  "WriteAt_truncate tf f t fs = (Some e, t1, fs1) \<Longrightarrow> \<exists>x. e = OSError x"
  by (auto simp: WriteAt_truncate_def split: option.splits prod.splits)

lemma WriteAt_create_error:
  "WriteAt_create tf t fs = (Some e, t1, fs1) \<Longrightarrow> \<exists>x. e = OSError x"
  by (auto simp: WriteAt_create_def Let_def
      split: option.splits if_splits prod.splits sum.splits dest: WriteAt_truncate_error)

lemma WriteAt_prepare_error:
  "WriteAt_prepare tf t fs = (Some e, t1, fs1) \<Longrightarrow> \<exists>x. e = OSError x"
  by (auto simp: WriteAt_prepare_def split: if_splits prod.splits
      dest: makeSymlink_error WriteAt_create_error)

lemma WriteAt_write_error:
  "WriteAt_write tf t fs r off tot = Inl (e, fs1) \<Longrightarrow> \<exists>x. e = OSError x"
  by (auto simp: WriteAt_write_def Let_def split: if_splits prod.splits option.splits)



section \<open>A non-zero byte at a terminator position\<close>

text \<open>
  In a layout in the order of the list, the loop of \<open>WriteAt\<close> reaches every
  terminator position that the buffer covers, unless an earlier terminator byte or the
  operating system stops it.
\<close>

lemma contiguous_member:
  "contiguous start fl \<Longrightarrow> tf \<in> set fl \<Longrightarrow> start \<le> offset tf \<and> 0 \<le> Size tf"
proof (induction fl arbitrary: start)
  case Nil
  then show ?case by simp
next
  case (Cons f rest)
  show ?case
  proof (cases "tf = f")
    case True
    with Cons.prems show ?thesis by simp
  next
    case False
    with Cons.prems have "contiguous (start + Size f + 1) rest" "tf \<in> set rest" "0 \<le> Size f"
      by simp_all
    with Cons.IH [of "start + Size f + 1"] show ?thesis by simp
  qed
qed

lemma file_WriteAt_count:
  "file_WriteAt fs f p lo = ((n, None), fs1) \<Longrightarrow> n = length p"
  by (auto simp: file_WriteAt_def split: option.splits node.splits if_splits)

lemma WriteAt_write_advance:
  assumes w: "WriteAt_write f t fs r off tot = Inr (fs2, r2, off2, tot2)"
    and lo: "offset f \<le> off" and hi: "off \<le> offset f + Size f"
  defines "n \<equiv> min (length r) (nat (offset f + Size f - off))"
  shows "r2 = drop n r \<and> off2 = off + int n \<and> tot2 = tot + int n"
proof (cases "off - offset f < Size f")
  case inside: True
  let ?p = "if off - offset f + int (length r) > Size f
            then take (nat (Size f - (off - offset f))) r else r"
  have len: "length ?p = n" using inside by (auto simp: n_def min_def)
  show ?thesis
  proof (cases "length ?p > 0")
    case True
    obtain k err fs1 where fw: "file_WriteAt fs (openFile t) ?p (off - offset f) = ((k, err), fs1)"
      by (metis prod.exhaust)
    with w inside True have e: "err = None"
      by (cases err) (auto simp: WriteAt_write_def Let_def)
    with fw have "k = length ?p" by (simp add: file_WriteAt_count)
    with len have "k = n" by simp
    with w inside True fw e show ?thesis
      by (auto simp: WriteAt_write_def Let_def)
  next
    case False
    with len have "n = 0" by simp
    with w inside False show ?thesis by (auto simp: WriteAt_write_def Let_def)
  qed
next
  case False
  with hi have "n = 0" by (simp add: n_def)
  with w False show ?thesis by (auto simp: WriteAt_write_def Let_def)
qed

lemma WriteAt_loop_bad_padding:
  assumes "contiguous start fl" and "start \<le> off" and "tf \<in> set fl"
    and "off \<le> offset tf + Size tf" and "offset tf + Size tf < off + int (length r)"
    and "r ! nat (offset tf + Size tf - off) \<noteq> 0"
    and "\<And>x. snd (fst (WriteAt_loop fl t fs r off tot)) \<noteq> Some (OSError x)"
  shows "fst (WriteAt_loop fl t fs r off tot) = (0, Some ErrBadPaddingByte)"
  using assms
proof (induction fl arbitrary: start t fs r off tot)
  case Nil
  then show ?case by simp
next
  case (Cons f rest)
  let ?p = "offset tf + Size tf"
  from Cons.prems(1) have f: "offset f = start" "0 \<le> Size f"
    and rest: "contiguous (start + Size f + 1) rest" by simp_all
  have noerr: "\<And>x. snd (fst (WriteAt_loop (f # rest) t fs r off tot)) \<noteq> Some (OSError x)"
    by (rule Cons.prems(7))
  show ?case
  proof (cases "off \<ge> offset f + Size f + 1")
    case skip: True
    then have eq: "WriteAt_loop (f # rest) t fs r off tot = WriteAt_loop rest t fs r off tot"
      by simp
    from skip Cons.prems(4) have "tf \<noteq> f" by auto
    with Cons.prems(3) have "tf \<in> set rest" by simp
    moreover from skip f have "start + Size f + 1 \<le> off" by simp
    ultimately have "fst (WriteAt_loop rest t fs r off tot) = (0, Some ErrBadPaddingByte)"
      using rest Cons.prems(4,5,6) noerr unfolding eq
      by (intro Cons.IH [of "start + Size f + 1"]) auto
    with eq show ?thesis by simp
  next
    case inrange: False
    with Cons.prems(2) f have cond: "\<not> (off < offset f \<or> off \<ge> offset f + Size f + 1)"
      by simp
    have pf: "offset f + Size f \<le> ?p"
    proof (cases "tf = f")
      case True
      then show ?thesis by simp
    next
      case False
      with Cons.prems(3) have "tf \<in> set rest" by simp
      from contiguous_member [OF rest this] f show ?thesis by simp
    qed
    obtain pe t1 fs1 where prep: "WriteAt_prepare f t fs = (pe, t1, fs1)"
      by (metis prod.exhaust)
    have pe: "pe = None"
    proof (cases pe)
      case (Some e)
      with prep cond have "snd (fst (WriteAt_loop (f # rest) t fs r off tot)) = Some e" by simp
      moreover from prep Some obtain x where "e = OSError x"
        using WriteAt_prepare_error by blast
      ultimately show ?thesis using noerr by blast
    qed simp
    obtain fs2 r2 off2 tot2 where wr: "WriteAt_write f t1 fs1 r off tot = Inr (fs2, r2, off2, tot2)"
    proof (cases "WriteAt_write f t1 fs1 r off tot")
      case (Inl a)
      obtain e fs' where "a = (e, fs')" by (cases a)
      with Inl prep pe cond
      have "snd (fst (WriteAt_loop (f # rest) t fs r off tot)) = Some e" by simp
      moreover from Inl \<open>a = (e, fs')\<close> obtain x where "e = OSError x"
        using WriteAt_write_error by blast
      ultimately show ?thesis using noerr by blast
    next
      case (Inr b)
      then show ?thesis using that by (cases b) auto
    qed
    define n where "n = nat (offset f + Size f - off)"
    from cond have lo: "offset f \<le> off" and hi: "off \<le> offset f + Size f" by auto
    from pf Cons.prems(5) hi have nlen: "n < length r" by (simp add: n_def)
    then have "min (length r) (nat (offset f + Size f - off)) = n" by (simp add: n_def)
    with WriteAt_write_advance [OF wr lo hi]
    have adv: "r2 = drop n r" "off2 = off + int n" "tot2 = tot + int n" by simp_all
    from adv hi have off2: "off2 = offset f + Size f" by (simp add: n_def)
    from adv nlen have r2: "r2 \<noteq> []" "hd r2 = r ! n" by (simp_all add: hd_drop_conv_nth)
    show ?thesis
    proof (cases "r ! n = 0")
      case False
      with off2 r2 have "WriteAt_padding f r2 off2 tot2 = Inl ErrBadPaddingByte"
        by (simp add: WriteAt_padding_def)
      with prep pe wr cond show ?thesis by simp
    next
      case zero: True
      with off2 r2 have pad: "WriteAt_padding f r2 off2 tot2 = Inr (tl r2, off2 + 1, tot2 + 1)"
        by (simp add: WriteAt_padding_def)
      have ne: "tf \<noteq> f"
      proof
        assume "tf = f"
        then have "nat (?p - off) = n" by (simp add: n_def)
        with Cons.prems(6) zero show False by simp
      qed
      with Cons.prems(3) have mem: "tf \<in> set rest" by simp
      from contiguous_member [OF rest mem] f have p1: "offset f + Size f + 1 \<le> ?p" by simp
      have tl: "tl r2 = drop (Suc n) r" using adv by (simp add: drop_Suc tl_drop)
      from p1 Cons.prems(5) hi have more: "Suc n < length r" by (simp add: n_def)
      then have tlne: "tl r2 \<noteq> []" unfolding tl by simp
      from prep pe wr pad cond tlne
      have eq: "WriteAt_loop (f # rest) t fs r off tot
                  = WriteAt_loop rest t1 fs2 (tl r2) (off2 + 1) (tot2 + 1)"
        by simp
      have idx: "tl r2 ! nat (?p - (off2 + 1)) = r ! nat (?p - off)"
      proof -
        have "Suc n + nat (?p - (off2 + 1)) = nat (?p - off)"
          using p1 off2 hi by (simp add: n_def)
        with more show ?thesis unfolding tl by (simp add: nth_drop)
      qed
      have len: "?p < (off2 + 1) + int (length (tl r2))"
        using Cons.prems(5) more off2 hi unfolding tl by (simp add: n_def)
      have "fst (WriteAt_loop rest t1 fs2 (tl r2) (off2 + 1) (tot2 + 1))
              = (0, Some ErrBadPaddingByte)"
      proof (rule Cons.IH [of "start + Size f + 1"])
        show "contiguous (start + Size f + 1) rest" by (rule rest)
        show "start + Size f + 1 \<le> off2 + 1" using off2 f by simp
        show "tf \<in> set rest" by (rule mem)
        show "off2 + 1 \<le> ?p" using p1 off2 by simp
        show "?p < off2 + 1 + int (length (tl r2))" by (rule len)
        show "tl r2 ! nat (?p - (off2 + 1)) \<noteq> 0" using idx Cons.prems(6) by simp
        show "\<And>x. snd (fst (WriteAt_loop rest t1 fs2 (tl r2) (off2 + 1) (tot2 + 1)))
                 \<noteq> Some (OSError x)"
          using noerr unfolding eq .
      qed
      with eq show ?thesis by simp
    qed
  qed
qed

lemma contiguous_end:
  "contiguous start fl \<Longrightarrow> tf \<in> set fl
     \<Longrightarrow> offset tf + Size tf < start + sum_list (map (\<lambda>f. Size f + 1) fl)"
proof (induction fl arbitrary: start)
  case Nil
  then show ?case by simp
next
  case (Cons f rest)
  from Cons.prems(1) have f: "offset f = start" "0 \<le> Size f"
    and rest: "contiguous (start + Size f + 1) rest" by simp_all
  have nonneg: "0 \<le> sum_list (map (\<lambda>f. Size f + 1) rest)"
    using rest
  proof (induction rest arbitrary: start)
    case Nil
    then show ?case by simp
  next
    case (Cons g gs)
    from Cons.prems have "0 \<le> Size g" "contiguous (start + Size f + 1 + Size g + 1) gs"
      by simp_all
    with Cons.IH [of "start + Size g + 1"] show ?case by (simp add: add.commute add.left_commute)
  qed
  show ?case
  proof (cases "tf = f")
    case True
    with f nonneg show ?thesis by simp
  next
    case False
    with Cons.prems(2) have "tf \<in> set rest" by simp
    from Cons.IH [OF rest this] show ?thesis by simp
  qed
qed

text \<open>
  The constructor builds such a layout from a list that is given in the order of its
  paths, holds no negative size, and has a total below \<open>2 ^ 63\<close>.
\<close>

lemma int64_id: "- (2 ^ 63) \<le> x \<Longrightarrow> x < 2 ^ 63 \<Longrightarrow> int64 x = x"
  by (simp add: int64_def)

lemma sizes_sum_nonneg:
  "\<forall>f \<in> set fs. 0 \<le> Size f \<Longrightarrow> 0 \<le> sum_list (map (\<lambda>f. Size f + 1) fs)"
  by (induction fs) auto

lemma validate_loop_layout:
  "validate_loop fs m sz acc = Inr (res, sz') \<Longrightarrow> \<forall>f \<in> set fs. 0 \<le> Size f
     \<Longrightarrow> 0 \<le> sz \<Longrightarrow> sz + sum_list (map (\<lambda>f. Size f + 1) fs) < 2 ^ 63
     \<Longrightarrow> \<exists>new. res = acc @ new \<and> map Path new = map Path fs \<and> contiguous sz new
           \<and> sz' = sz + sum_list (map (\<lambda>f. Size f + 1) new)"
proof (induction fs arbitrary: m sz acc)
  case Nil
  then show ?case by simp
next
  case (Cons f rest)
  from Cons.prems(2) have sizes: "\<forall>g \<in> set rest. 0 \<le> Size g" and f: "0 \<le> Size f"
    by simp_all
  from sizes have restsum: "0 \<le> sum_list (map (\<lambda>f. Size f + 1) rest)"
    by (rule sizes_sum_nonneg)
  with Cons.prems(3,4) f have small: "Size f + 1 < 2 ^ 63" "sz + (Size f + 1) < 2 ^ 63"
    by simp_all
  from small(1) f have w1: "int64 (Size f + 1) = Size f + 1"
    by (intro int64_id) simp_all
  from small(2) f Cons.prems(3) have w2: "int64 (sz + (Size f + 1)) = sz + (Size f + 1)"
    by (intro int64_id) simp_all
  from Cons.prems(1) w1 w2
  have rec: "validate_loop rest (m(Path f \<mapsto> Path f)) (sz + (Size f + 1))
               (acc @ [f\<lparr>offset := sz\<rparr>]) = Inr (res, sz')"
    by (simp split: if_splits)
  have nonneg: "0 \<le> sz + (Size f + 1)" using f Cons.prems(3) by simp
  have bound: "sz + (Size f + 1) + sum_list (map (\<lambda>f. Size f + 1) rest) < 2 ^ 63"
    using Cons.prems(4) by simp
  from Cons.IH [OF rec sizes nonneg bound] obtain new where
    new: "res = (acc @ [f\<lparr>offset := sz\<rparr>]) @ new" "map Path new = map Path rest"
         "contiguous (sz + (Size f + 1)) new"
         "sz' = sz + (Size f + 1) + sum_list (map (\<lambda>f. Size f + 1) new)"
    by blast
  let ?new = "f\<lparr>offset := sz\<rparr> # new"
  have "res = acc @ ?new" using new(1) by simp
  moreover have "map Path ?new = map Path (f # rest)" using new(2) by simp
  moreover have "contiguous sz ?new" using new(3) f by (simp add: add.assoc)
  moreover have "sz' = sz + sum_list (map (\<lambda>f. Size f + 1) ?new)" using new(4) by simp
  ultimately show ?case by blast
qed

lemma sorted_input_laid_out:
  assumes "NewVirtualTarballWriter fs = Inr t"
    and "sorted (map Path fs)" and "\<forall>f \<in> set fs. 0 \<le> Size f"
    and "sum_list (map (\<lambda>f. Size f + 1) fs) < 2 ^ 63"
  shows "laid_out t"
proof -
  from assms(1) obtain res sz where
    v: "validate_loop fs Map.empty 0 [] = Inr (res, sz)" and
    t: "t = \<lparr>files = sortFiles res, size = sz, openFileInfo = None, openFile = None\<rparr>"
    by (auto simp: NewVirtualTarballWriter_def int64_def split: sum.splits prod.splits)
  from validate_loop_layout [OF v assms(3)] assms(4)
  have res: "map Path res = map Path fs" "contiguous 0 res"
    "sz = sum_list (map (\<lambda>f. Size f + 1) res)"
    by auto
  from res(1) assms(2) have "sortFiles res = res"
    by (simp add: sortFiles_def sort_key_id_if_sorted)
  with t res show ?thesis by (simp add: laid_out_def)
qed

text \<open>The running total of the constructor wraps around at \<open>2 ^ 63\<close>.\<close>

lemma constructor_total_wraps:
  "NewVirtualTarballWriter [regular ''huge'' (2 ^ 63 - 1)]
     = Inr \<lparr>files = [regular ''huge'' (2 ^ 63 - 1)], size = - (2 ^ 63),
            openFileInfo = None, openFile = None\<rparr>"
  by (simp add: NewVirtualTarballWriter_def int64_def regular_def IsAbs_def
      Separator_def bad_segment_def sortFiles_def)

section \<open>The sections of the metadata\<close>

text \<open>
  The offset of the loop that slices the blob advances by the end point of the
  section, not to it: after two sections it stands at three times the section size.
  A blob longer than two sections is never reassembled from its sections.
\<close>

lemma length_le_bytes [simp]: "length (le_bytes n w) = n"
  by (simp add: le_bytes_def)

lemma reassemble_snoc:
  "reassemble (acc @ [le_bytes 2 w @ p]) = reassemble acc @ p"
  by (simp add: reassemble_def)

lemma slice_loop_bound:
  "slice_loop md ss k n out acc = Some r \<Longrightarrow> 0 \<le> out \<Longrightarrow> 0 < ss
     \<Longrightarrow> length (reassemble r) \<le> length (reassemble acc) + nat (int (length md) - out)"
proof (induction k arbitrary: n out acc)
  case 0
  then show ?case by simp
next
  case (Suc k)
  let ?e = "if out + ss > int (length md) then int (length md) else out + ss"
  let ?ms = "le_bytes 2 (word_of_nat n :: 16 word) @ take (nat (?e - out)) (drop (nat out) md)"
  from Suc.prems have ok: "0 \<le> ?e - out"
    by (auto simp: metadataSectionMsgSize_def Let_def split: if_splits)
  with Suc.prems have rec: "slice_loop md ss k (Suc n) (out + ?e) (acc @ [?ms]) = Some r"
    by (auto simp: metadataSectionMsgSize_def Let_def split: if_splits)
  have "0 \<le> out + ?e" using Suc.prems ok by auto
  from Suc.IH [OF rec this Suc.prems(3)]
  have "length (reassemble r)
          \<le> length (reassemble (acc @ [?ms])) + nat (int (length md) - (out + ?e))" .
  also have "length (reassemble (acc @ [?ms]))
          = length (reassemble acc) + length (take (nat (?e - out)) (drop (nat out) md))"
    by (simp only: reassemble_snoc length_append)
  also have "length (take (nat (?e - out)) (drop (nat out) md)) \<le> nat (?e - out)"
    by simp
  finally have "length (reassemble r)
          \<le> length (reassemble acc) + nat (?e - out) + nat (int (length md) - (out + ?e))"
    by simp
  moreover have "nat (?e - out) + nat (int (length md) - (out + ?e)) \<le> nat (int (length md) - out)"
    using Suc.prems(2) ok by (auto split: if_splits)
  ultimately show ?case by linarith
qed

lemma sectionCount_ge_3:
  assumes "0 < ss" "2 * ss < int (length md)"
  shows "\<exists>c. sectionCount md ss = Some c \<and> 3 \<le> c"
proof -
  let ?l = "int (length md)"
  have q: "quot ?l ss = ?l div ss" using assms by (simp add: quot_def)
  have "(2 * ss) div ss \<le> ?l div ss" using assms by (intro zdiv_mono1) simp_all
  then have d: "2 \<le> ?l div ss" using assms by simp
  show ?thesis
  proof (cases "?l div ss = 2")
    case True
    then have "?l div ss * ss < ?l" using assms by simp
    with True q assms show ?thesis by (simp add: sectionCount_def Let_def)
  next
    case False
    with d have "3 \<le> ?l div ss" by simp
    with q assms show ?thesis by (simp add: sectionCount_def Let_def)
  qed
qed

lemma slice_sections_lossy:
  assumes "0 < ss" "2 * ss < int (length md)"
  shows "map_option reassemble (slice_sections md ss) \<noteq> Some md"
proof
  assume a: "map_option reassemble (slice_sections md ss) = Some md"
  then obtain r where r: "slice_sections md ss = Some r" and rm: "reassemble r = md"
    by auto
  from sectionCount_ge_3 [OF assms] obtain c where c: "sectionCount md ss = Some c" "3 \<le> c"
    by blast
  then have "2 \<le> nat c" by simp
  then obtain k where "nat c = 2 + k" using le_iff_add by blast
  then have k: "nat c = Suc (Suc k)" by simp
  let ?m0 = "le_bytes 2 (word_of_nat 0 :: 16 word) @ take (nat ss) md"
  let ?m1 = "le_bytes 2 (word_of_nat (Suc 0) :: 16 word) @ take (nat ss) (drop (nat ss) md)"
  have unroll: "slice_loop md ss (Suc (Suc k)) 0 0 [] = slice_loop md ss k (Suc (Suc 0)) (3 * ss) [?m0, ?m1]"
    using assms by (simp add: metadataSectionMsgSize_def Let_def)
  from r c k have "slice_loop md ss (Suc (Suc k)) 0 0 [] = Some r"
    by (simp add: slice_sections_def)
  with unroll have "slice_loop md ss k (Suc (Suc 0)) (3 * ss) [?m0, ?m1] = Some r" by simp
  from slice_loop_bound [OF this] assms
  have "length (reassemble r) \<le> length (reassemble [?m0, ?m1]) + nat (int (length md) - 3 * ss)"
    by simp
  moreover have "length (reassemble [?m0, ?m1]) \<le> nat ss + nat ss"
    by (simp add: reassemble_def)
  ultimately have "length (reassemble r) < length md" using assms by linarith
  with rm show False by simp
qed

section \<open>Regions\<close>

lemma quot_nonneg: "0 \<le> a \<Longrightarrow> 0 < b \<Longrightarrow> quot a b = a div b"
  by (simp add: quot_def)

lemma region_size_uint:
  "0 \<le> d \<Longrightarrow> d < 65536 \<Longrightarrow> uint (word_of_int d :: 16 word) = d"
  by (simp add: uint_word_of_int take_bit_int_eq_self)

lemma ceiling_count:
  assumes "0 \<le> sz" "0 < rs"
  shows "(if rs * (sz div rs) < sz then sz div rs + 1 else sz div rs)
           = \<lceil>real_of_int sz / real_of_int rs\<rceil>"
proof -
  have eq: "sz = rs * (sz div rs) + sz mod rs" by simp
  have m: "0 \<le> sz mod rs" "sz mod rs < rs" using assms by simp_all
  have c: "\<lceil>real_of_int sz / real_of_int rs\<rceil> = - (- sz div rs)"
    by (rule ceiling_divide_eq_div)
  show ?thesis
  proof (cases "sz mod rs = 0")
    case True
    then have "rs * (sz div rs) = sz" using eq by simp
    moreover have "- sz div rs = - (sz div rs)"
      using True assms by (simp add: zdiv_zminus1_eq_if)
    ultimately show ?thesis using c by simp
  next
    case False
    then have "rs * (sz div rs) < sz" using eq m by linarith
    moreover have "- sz div rs = - (sz div rs) - 1"
      using False assms by (simp add: zdiv_zminus1_eq_if)
    ultimately show ?thesis using c by simp
  qed
qed

lemma last_region:
  fixes sz rs :: int
  assumes "0 < sz" "0 < rs"
  defines "rc \<equiv> (if rs * (sz div rs) < sz then sz div rs + 1 else sz div rs)"
  shows "0 < sz - (rc - 1) * rs \<and> sz - (rc - 1) * rs \<le> rs"
proof -
  have eq: "sz = rs * (sz div rs) + sz mod rs" by simp
  have m: "0 \<le> sz mod rs" "sz mod rs < rs" using assms by simp_all
  show ?thesis
  proof (cases "rs * (sz div rs) < sz")
    case True
    then have "rc = sz div rs + 1" by (simp add: rc_def)
    then have "sz - (rc - 1) * rs = sz mod rs" using eq by (simp add: algebra_simps)
    moreover have "0 < sz mod rs" using True eq m by linarith
    ultimately show ?thesis using m by simp
  next
    case False
    then have z: "rs * (sz div rs) = sz" using eq m by linarith
    from False have "rc = sz div rs" by (simp add: rc_def)
    then have "(rc - 1) * rs = rs * (sz div rs) - rs" by (simp add: algebra_simps)
    then have "(rc - 1) * rs = sz - rs" using z by simp
    then show ?thesis using assms(2) by linarith
  qed
qed

text \<open>The start of \<open>Run\<close> stores the region size and the region count.\<close>

lemma Run_setup_regions:
  "Run_setup p d s = Some s'
     \<Longrightarrow> regionSize s' = region_size (datagramSize s) d
       \<and> region_count (tb_size s) (regionSize s') = Some (regionCount s')
       \<and> nextRegion s' = 0"
  by (auto simp: Run_setup_def Let_def split: option.splits)

text \<open>
  For a size that is not negative and a difference of datagram capacity and data
  message overhead between 1 and 65535, the region size is that difference, the region
  count is the ceiling of the quotient of size and region size, and, when the size is
  positive, \<open>sz - (count - 1) * regionSize\<close> is at least one and at most a region.
\<close>

lemma region_count_is_ceiling:
  assumes "0 \<le> sz" and "0 < dgram - ov" and "dgram - ov < 65536"
  shows "uint (region_size dgram ov) = dgram - ov
     \<and> region_count sz (region_size dgram ov) = Some \<lceil>real_of_int sz / real_of_int (dgram - ov)\<rceil>
     \<and> (0 < sz \<longrightarrow>
          0 < sz - (\<lceil>real_of_int sz / real_of_int (dgram - ov)\<rceil> - 1) * (dgram - ov)
          \<and> sz - (\<lceil>real_of_int sz / real_of_int (dgram - ov)\<rceil> - 1) * (dgram - ov) \<le> dgram - ov)"
proof -
  let ?rs = "dgram - ov"
  have u: "uint (region_size dgram ov) = ?rs"
    unfolding region_size_def using assms(2,3) by (intro region_size_uint) simp_all
  then have nz: "region_size dgram ov \<noteq> 0" using assms(2) by auto
  have c: "(if ?rs * (sz div ?rs) < sz then sz div ?rs + 1 else sz div ?rs)
             = \<lceil>real_of_int sz / real_of_int ?rs\<rceil>"
    using assms by (intro ceiling_count) simp_all
  have rc: "region_count sz (region_size dgram ov) = Some \<lceil>real_of_int sz / real_of_int ?rs\<rceil>"
    using nz u c assms by (simp add: region_count_def Let_def quot_nonneg)
  have "0 < sz \<Longrightarrow> 0 < sz - (\<lceil>real_of_int sz / real_of_int ?rs\<rceil> - 1) * ?rs
          \<and> sz - (\<lceil>real_of_int sz / real_of_int ?rs\<rceil> - 1) * ?rs \<le> ?rs"
    using last_region [of sz ?rs] assms(2) c by simp
  with u rc show ?thesis by blast
qed

lemma region_count_is_ceiling_example:
  "(0 :: int) \<le> 10 \<and> (0 :: int) < 1500 - 1496 \<and> (1500 :: int) - 1496 < 65536
   \<and> uint (region_size 1500 1496) = 4
   \<and> region_count 10 (region_size 1500 1496) = Some 3
   \<and> (10 :: int) - (3 - 1) * 4 = 2"
  using region_count_is_ceiling [of 10 1500 1496] by simp

text \<open>
  The \<open>default\<close> branch hands the cursor, which counts regions, to \<open>ReadAt\<close> as the
  offset in bytes: with the reader of the specification the payload of region \<open>r\<close>
  starts at byte \<open>r\<close> of the virtual space.
\<close>

lemma Run_default_payload:
  assumes "lastClientDataRequest s \<noteq> 0" and "now - lastClientDataRequest s < 500 * 1000000"
    and "0 \<le> nextRegion s" and "nextRegion s < int (length space)"
  shows "\<exists>s'. Run_default (spec_ReadAt space) sends now s
           = Continue [Data (tb_HashId s) (nextRegion s)
                         (take (unat (regionSize s)) (drop (nat (nextRegion s)) space))] s'"
  using assms by (simp add: Run_default_def spec_ReadAt_def sends_def Let_def)

text \<open>The server of three regions: its start, and a run over its three regions.\<close>

lemma big_setup: "Run_setup 33 41 big_server = Some big_started"
  by code_simp

lemma big_space_length: "length big_space = 3000"
  by (simp add: big_space_def)

lemma big_fields:
  "tb_HashId big_started = replicate 32 1" "lastClientDataRequest big_started = 0"
  "nextRegion big_started = 0" "regionSize big_started = 1459" "regionCount big_started = 3"
  "tb_size big_started = 3000"
  by (simp_all add: big_started_def big_server_def NewServer_def)

lemma big_loop:
  "Run_loop [data_request 1000000000, Default 1000000001, Default 1000000002, Default 1000000003]
     (spec_ReadAt big_space) sends sends big_started
   = Continue [Data (replicate 32 1) 0 (take 1459 big_space),
               Data (replicate 32 1) 1 (take 1459 (drop 1 big_space)),
               Data (replicate 32 1) 2 (take 1459 (drop 2 big_space))]
       (big_started\<lparr>lastClientDataRequest := 1000000000, nextRegion := 0\<rparr>)"
  by (simp add: data_request_def Run_step_def Run_control_def processControl_def
      Run_default_def spec_ReadAt_def sends_def big_fields big_space_length Let_def)

section \<open>The state of the server in a run\<close>

lemma processControl_fields:
  "processControl s now x = Some (err, ms, s1)
     \<Longrightarrow> tb_HashId s1 = tb_HashId s
       \<and> \<not> list_ex is_data ms
       \<and> lastClientDataRequest s1
           = (case spec_data_request (tb_HashId s) (ControlToServer None x now) of
                Some t \<Rightarrow> t | None \<Rightarrow> lastClientDataRequest s)"
  by (auto simp: processControl_def spec_data_request_def Let_def
      split: sum.splits prod.splits if_splits opcode.splits option.splits)

lemma Run_step_fields:
  assumes "Run_step R SD SC ev s = Continue ms s1"
  shows "tb_HashId s1 = tb_HashId s
       \<and> lastClientDataRequest s1
           = (case spec_data_request (tb_HashId s) ev of
                Some t \<Rightarrow> t | None \<Rightarrow> lastClientDataRequest s)"
proof (cases ev)
  case (ControlToServer ce x now)
  show ?thesis
  proof (cases ce)
    case None
    with assms ControlToServer obtain err where "processControl s now x = Some (err, ms, s1)"
      by (auto simp: Run_step_def Run_control_def split: option.splits)
    from processControl_fields [OF this] None ControlToServer show ?thesis by simp
  next
    case (Some e)
    with assms ControlToServer show ?thesis by (simp add: Run_step_def Run_control_def)
  qed
next
  case Ticker
  with assms show ?thesis
    by (auto simp: Run_step_def Run_ticker_def spec_data_request_def Let_def split: option.splits)
next
  case (Default now)
  with assms show ?thesis
    by (auto simp: Run_step_def Run_default_def spec_data_request_def Let_def
        split: option.splits sum.splits if_splits)
qed

lemma Run_loop_fields:
  "Run_loop evs R SD SC s0 = Continue ms s
     \<Longrightarrow> tb_HashId s = tb_HashId s0
       \<and> lastClientDataRequest s
           = (case spec_last_request (tb_HashId s0) evs of
                Some t \<Rightarrow> t | None \<Rightarrow> lastClientDataRequest s0)"
proof (induction evs arbitrary: s0 ms)
  case Nil
  then show ?case by simp
next
  case (Cons ev evs)
  from Cons.prems obtain ms1 s1 ms2 where
    st: "Run_step R SD SC ev s0 = Continue ms1 s1" and
    rest: "Run_loop evs R SD SC s1 = Continue ms2 s"
    by (auto split: step.splits)
  from Run_step_fields [OF st] Cons.IH [OF rest] show ?case
    by (auto split: option.splits)
qed

lemma Run_default_emits:
  assumes "R (unat (regionSize s)) (nextRegion s) = Inr buf"
  shows "emits_data (Run_default R SD now s)
           \<longleftrightarrow> lastClientDataRequest s \<noteq> 0 \<and> now - lastClientDataRequest s < 500 * 1000000"
  using assms by (auto simp: Run_default_def Let_def split: option.splits)

lemma Run_control_silent: "\<not> emits_data (Run_control ce x now s)"
proof (cases "processControl s now x")
  case None
  then show ?thesis by (simp add: Run_control_def split: option.splits)
next
  case (Some a)
  obtain err ms s1 where "a = (err, ms, s1)" by (cases a)
  with Some processControl_fields [of s now x err ms s1] show ?thesis
    by (simp add: Run_control_def split: option.splits)
qed

lemma Run_ticker_silent: "\<not> emits_data (Run_ticker SC s)"
  by (simp add: Run_ticker_def Let_def split: option.splits)

text \<open>A run without a data request hands no data message to the transport.\<close>

lemma spec_last_request_None:
  "spec_last_request h (ev # evs) = None
     \<longleftrightarrow> spec_last_request h evs = None \<and> spec_data_request h ev = None"
  by (simp split: option.splits)

lemma Run_step_silent:
  assumes "lastClientDataRequest s = 0"
  shows "\<not> emits_data (Run_step R SD SC ev s)"
proof (cases ev)
  case (ControlToServer ce x now)
  then show ?thesis by (simp add: Run_step_def Run_control_silent)
next
  case Ticker
  then show ?thesis by (simp add: Run_step_def Run_ticker_silent)
next
  case (Default now)
  with assms show ?thesis by (simp add: Run_step_def Run_default_def)
qed

lemma Run_loop_silent:
  "spec_last_request (tb_HashId s0) evs = None \<Longrightarrow> lastClientDataRequest s0 = 0
     \<Longrightarrow> \<not> emits_data (Run_loop evs R SD SC s0)"
proof (induction evs arbitrary: s0)
  case Nil
  then show ?case by simp
next
  case (Cons ev evs)
  from Cons.prems(1) have none: "spec_last_request (tb_HashId s0) evs = None"
    and nreq: "spec_data_request (tb_HashId s0) ev = None"
    by (simp_all only: spec_last_request_None)
  have quiet: "\<not> emits_data (Run_step R SD SC ev s0)"
    using Cons.prems(2) by (rule Run_step_silent)
  show ?case
  proof (cases "Run_step R SD SC ev s0")
    case (Continue ms1 s1)
    from Run_step_fields [OF Continue] nreq Cons.prems(2)
    have s1: "tb_HashId s1 = tb_HashId s0" "lastClientDataRequest s1 = 0" by simp_all
    with none have "\<not> emits_data (Run_loop evs R SD SC s1)"
      by (intro Cons.IH) simp_all
    with quiet Continue show ?thesis
      by (cases "Run_loop evs R SD SC s1") simp_all
  next
    case (Return ms e)
    with quiet show ?thesis by simp
  next
    case Panics
    then show ?thesis by simp
  qed
qed

text \<open>The server of the examples is the one that the start of \<open>Run\<close> sets up.\<close>

lemma started_server_set_up: "Run_setup 33 41 (jim_server 1500) = Some started_server"
  by code_simp

section \<open>The index of a metadata section\<close>

lemma section_index_guard:
  fixes i :: "16 word"
  shows "i \<ge> (word_of_nat n :: 16 word) \<longleftrightarrow> \<not> unat i < n mod 65536"
  by (simp add: word_le_nat_alt unat_of_nat not_less)

section \<open>The claims\<close>

text \<open>
  C1.  The claim: two writers built from permutations of one file list give every
  descriptor the same offset.  The constructor assigns the offsets in the order of the
  input and sorts afterwards: the lists \<open>ab_files\<close> and \<open>ba_files\<close> hold the same two
  descriptors, both are accepted, and the descriptor \<open>a\<close> has the offset 0 in one
  writer and 3 in the other.
\<close>

theorem layout_depends_on_input_order:
  "ba_files = rev ab_files
   \<and> layout ab_files = Some [(''a'', 0), (''b'', 2)]
   \<and> layout ba_files = Some [(''a'', 3), (''b'', 0)]"
  by (simp add: layout_def NewVirtualTarballWriter_def int64_def ab_files_def ba_files_def regular_def
      IsAbs_def Separator_def bad_segment_def sortFiles_def)

text \<open>
  C2.  The claim: the sections of the metadata, stripped of their index and
  concatenated, give the blob.  The blob of \<open>jim_server\<close> has 66 bytes.  With 22 bytes
  to a section the server builds three sections, the third one empty: the sections give
  the first 44 bytes of the blob only.  With 25 bytes to a section the third section
  would start at offset 75, behind the end of the blob, and \<open>make\<close> panics.
\<close>

theorem metadata_not_reassembled:
  "length (metadata (jim_server 57)) = 66
   \<and> (case Run_setup 33 41 (jim_server 57) of
        None \<Rightarrow> False
      | Some s \<Rightarrow>
          metadataHeader s = [3, 0]
          \<and> map length (metadataSections s) = [24, 24, 2]
          \<and> reassemble (metadataSections s) = take 44 (metadata (jim_server 57))
          \<and> reassemble (metadataSections s) \<noteq> metadata (jim_server 57))
   \<and> slice_sections (metadata (jim_server 60)) (60 - (33 + metadataSectionMsgSize)) = None
   \<and> Run_setup 33 41 (jim_server 60) = None"
  by code_simp

text \<open>
  C3.  The claim: the 14 bytes \<open>Hello, world!\n\<close> written at offset 0 over two files of
  size 7 succeed with \<open>n = 14\<close>.  The writer of the test is the one the constructor
  builds; the call does not return 14 and no error.
\<close>

theorem hello_world_not_14:
  "NewVirtualTarballWriter hello_files = Inr hello_writer
   \<and> length hello_world = 14
   \<and> fst (WriteAt hello_writer empty_fs (Some hello_world) 0) \<noteq> (14, None)"
  by code_simp

text \<open>
  C3, amended.  The eighth byte of the buffer, \<open>w\<close>, stands where the terminator byte
  of the first file is expected: the call returns 0 and \<open>ErrBadPaddingByte\<close>.  The
  16 bytes that carry a zero byte after each file succeed with \<open>n = 16\<close>, and the two
  files hold the 14 bytes.
\<close>

theorem hello_world_bad_padding:
  "fst (WriteAt hello_writer empty_fs (Some hello_world) 0) = (0, Some ErrBadPaddingByte)
   \<and> fst (WriteAt hello_writer empty_fs (Some hello_world_padded) 0) = (16, None)
   \<and> nodes (snd (snd (WriteAt hello_writer empty_fs (Some hello_world_padded) 0))) [''hello.txt'']
       = Some (File (map of_char ''Hello, '') 420)
   \<and> nodes (snd (snd (WriteAt hello_writer empty_fs (Some hello_world_padded) 0))) [''world.txt'']
       = Some (File (map of_char ''world!'' @ [10]) 484)"
  by code_simp

text \<open>
  C4.  The claim: a write that covers the terminator byte of a regular descriptor
  creates its file, also when the size is 0.  The branch that creates the file is
  guarded by \<open>tf.Size > 0\<close>: the write of the terminator byte of a file of size 0
  succeeds with \<open>n = 1\<close> and leaves the writer and the file system as they were, with
  no file \<open>empty.txt\<close>.  The write of the terminator byte of a file of size 3
  creates that file.
\<close>

theorem empty_file_not_created:
  "NewVirtualTarballWriter [regular ''empty.txt'' 0] = Inr empty_writer
   \<and> WriteAt empty_writer empty_fs (Some [0]) 0 = ((1, None), empty_writer, empty_fs)
   \<and> nodes empty_fs [''empty.txt''] = None
   \<and> fst (WriteAt jim_writer empty_fs (Some [0]) 3) = (1, None)
   \<and> nodes (snd (snd (WriteAt jim_writer empty_fs (Some [0]) 3))) [''jim1.txt'']
       = Some (File [0, 0, 0] 484)"
proof -
  have "NewVirtualTarballWriter [regular ''empty.txt'' 0] = Inr empty_writer"
    by (simp add: NewVirtualTarballWriter_def int64_def empty_writer_def regular_def IsAbs_def
        Separator_def bad_segment_def sortFiles_def)
  moreover
  have "WriteAt empty_writer empty_fs (Some [0]) 0 = ((1, None), empty_writer, empty_fs)"
    by (simp add: WriteAt_def empty_writer_def regular_def WriteAt_prepare_def
        ModeSymlink_def WriteAt_write_def WriteAt_padding_def)
  moreover
  have "nodes empty_fs [''empty.txt''] = None"
    by (simp add: empty_fs_def)
  moreover
  have "fst (WriteAt jim_writer empty_fs (Some [0]) 3) = (1, None)"
    by code_simp
  moreover
  have "nodes (snd (snd (WriteAt jim_writer empty_fs (Some [0]) 3))) [''jim1.txt'']
          = Some (File [0, 0, 0] 484)"
    by code_simp
  ultimately show ?thesis by blast
qed

text \<open>
  C5.  The claim: a non-zero byte at a terminator position makes the call fail with
  \<open>ErrBadPaddingByte\<close>, with the count 0 and the files on disk unchanged.  The buffer
  \<open>jim_bad\<close> carries the content of the file and then the byte 1: the call fails as
  the claim says, and the file that held \<open>old\<close> holds the new content.
\<close>

theorem bad_padding_after_content_written:
  "jim_bad ! 3 \<noteq> 0
   \<and> fst (WriteAt jim_writer jim_fs (Some jim_bad) 0) = (0, Some ErrBadPaddingByte)
   \<and> nodes jim_fs [''jim1.txt''] = Some (File (map of_char ''old'') 420)
   \<and> nodes (snd (snd (WriteAt jim_writer jim_fs (Some jim_bad) 0))) [''jim1.txt'']
       = Some (File (map of_char ''hi'' @ [10]) 420)"
  by code_simp

text \<open>
  C5, amended.  On a writer whose descriptors are laid out in the order of its list, a
  call whose buffer holds a non-zero byte at the terminator position of a descriptor
  returns the count 0 and \<open>ErrBadPaddingByte\<close>, unless the operating system reports
  an error first.  Nothing is said of the files on disk.
\<close>

theorem WriteAt_bad_padding:
  assumes "laid_out t" and "tf \<in> set (files t)"
    and "0 \<le> off" and "off \<le> offset tf + Size tf"
    and "offset tf + Size tf < off + int (length b)"
    and "b ! nat (offset tf + Size tf - off) \<noteq> 0"
    and "\<forall>x. snd (fst (WriteAt t fs (Some b) off)) \<noteq> Some (OSError x)"
  shows "fst (WriteAt t fs (Some b) off) = (0, Some ErrBadPaddingByte)"
proof -
  from assms(1) have c: "contiguous 0 (files t)"
    and sz: "size t = sum_list (map (\<lambda>f. Size f + 1) (files t))"
    by (simp_all add: laid_out_def)
  from contiguous_end [OF c assms(2)] sz assms(4) have "off < size t" by simp
  with assms(3) have w: "WriteAt t fs (Some b) off = WriteAt_loop (files t) t fs b off 0"
    by (simp add: WriteAt_def)
  have "fst (WriteAt_loop (files t) t fs b off 0) = (0, Some ErrBadPaddingByte)"
    using c assms(3) assms(2) assms(4) assms(5) assms(6)
  proof (rule WriteAt_loop_bad_padding)
    fix x
    from assms(7) show "snd (fst (WriteAt_loop (files t) t fs b off 0)) \<noteq> Some (OSError x)"
      unfolding w by simp
  qed
  with w show ?thesis by simp
qed

text \<open>
  C5, the witness: the writer of \<open>TestWriteAt_OneFile\<close> is laid out in the order of
  its list, and the byte 1 stands at the terminator position 3 of its file.
\<close>

theorem WriteAt_bad_padding_witness:
  "NewVirtualTarballWriter [regular ''jim1.txt'' 3] = Inr jim_writer
   \<and> laid_out jim_writer
   \<and> regular ''jim1.txt'' 3 \<in> set (files jim_writer)
   \<and> jim_bad ! 3 \<noteq> 0
   \<and> fst (WriteAt jim_writer jim_fs (Some jim_bad) 0) = (0, Some ErrBadPaddingByte)"
proof -
  have h1: "laid_out jim_writer"
    by (simp add: laid_out_def jim_writer_def regular_def)
  have h2: "regular ''jim1.txt'' 3 \<in> set (files jim_writer)"
    by (simp add: jim_writer_def)
  have h6: "jim_bad ! nat (offset (regular ''jim1.txt'' 3) + Size (regular ''jim1.txt'' 3) - 0) \<noteq> 0"
    by (simp add: jim_bad_def regular_def)
  have "snd (fst (WriteAt jim_writer jim_fs (Some jim_bad) 0)) = Some ErrBadPaddingByte"
    by code_simp
  then have h7: "\<forall>x. snd (fst (WriteAt jim_writer jim_fs (Some jim_bad) 0)) \<noteq> Some (OSError x)"
    by simp
  have "fst (WriteAt jim_writer jim_fs (Some jim_bad) 0) = (0, Some ErrBadPaddingByte)"
    using h1 h2 _ _ _ h6 h7
    by (rule WriteAt_bad_padding) (simp_all add: regular_def jim_bad_def)
  moreover
  have "NewVirtualTarballWriter [regular ''jim1.txt'' 3] = Inr jim_writer"
    by (simp add: NewVirtualTarballWriter_def int64_def jim_writer_def regular_def IsAbs_def
        Separator_def bad_segment_def sortFiles_def)
  ultimately show ?thesis using h1 h2 h6 by (simp add: regular_def)
qed



text \<open>
  C7.  After the turns \<open>evs\<close> of a run that started with no request recorded, a turn
  of the loop emits data if and only if it is a turn of the \<open>default\<close> branch at a
  time less than 500 ms after the most recent data request of the run.  A run without
  a data request emits no data, and a request that is 500 ms old or older emits none.
  The read of the region at the cursor is assumed to succeed, and the time of the
  request not to be the zero time, which the server takes for no request.
\<close>

theorem data_only_within_window:
  assumes run: "Run_loop evs R SD SC s0 = Continue ms s"
    and init: "lastClientDataRequest s0 = 0"
    and clock: "spec_last_request (tb_HashId s0) evs \<noteq> Some 0"
    and read: "R (unat (regionSize s)) (nextRegion s) = Inr buf"
  shows "emits_data (Run_step R SD SC ev s)
           \<longleftrightarrow> (\<exists>now t. ev = Default now \<and> spec_last_request (tb_HashId s0) evs = Some t
                   \<and> now - t < 500 * 1000000)"
proof -
  from Run_loop_fields [OF run] init
  have l: "lastClientDataRequest s
             = (case spec_last_request (tb_HashId s0) evs of Some t \<Rightarrow> t | None \<Rightarrow> 0)"
    by (simp split: option.splits)
  show ?thesis
  proof (cases ev)
    case (ControlToServer ce x now)
    then show ?thesis by (simp add: Run_step_def Run_control_silent)
  next
    case Ticker
    then show ?thesis by (simp add: Run_step_def Run_ticker_silent)
  next
    case (Default now)
    with Run_default_emits [of R s buf SD now] read l clock show ?thesis
      by (auto simp: Run_step_def split: option.splits)
  qed
qed

text \<open>
  C7, the witness: after a data request at the time of one second the server emits
  data 100 ms later and none 600 ms later, and a server without request emits none.
\<close>

theorem data_only_within_window_witness:
  "emits_data (Run_step zero_reader sends sends (Default 1100000000)
       (started_server\<lparr>lastClientDataRequest := 1000000000\<rparr>))
   \<and> \<not> emits_data (Run_step zero_reader sends sends (Default 1600000000)
       (started_server\<lparr>lastClientDataRequest := 1000000000\<rparr>))
   \<and> \<not> emits_data (Run_step zero_reader sends sends (Default 1100000000) started_server)"
proof -
  let ?s = "started_server\<lparr>lastClientDataRequest := 1000000000\<rparr>"
  have h: "tb_HashId started_server = replicate 32 1"
    by (simp add: started_server_def jim_server_def NewServer_def)
  have run: "Run_loop [data_request 1000000000] zero_reader sends sends started_server
               = Continue [] ?s"
    by (simp add: data_request_def Run_step_def Run_control_def processControl_def h)
  have run0: "Run_loop [] zero_reader sends sends started_server = Continue [] started_server"
    by simp
  have init: "lastClientDataRequest started_server = 0"
    by (simp add: started_server_def jim_server_def NewServer_def)
  have lr: "spec_last_request (tb_HashId started_server) [data_request 1000000000] = Some 1000000000"
    by (simp add: data_request_def spec_data_request_def h)
  have rd: "zero_reader (unat (regionSize ?s)) (nextRegion ?s)
              = Inr (replicate (unat (regionSize ?s)) 0)"
    by (simp add: zero_reader_def)
  have rd0: "zero_reader (unat (regionSize started_server)) (nextRegion started_server)
              = Inr (replicate (unat (regionSize started_server)) 0)"
    by (simp add: zero_reader_def)
  from data_only_within_window [OF run init _ rd, of "Default 1100000000"] lr
  have a: "emits_data (Run_step zero_reader sends sends (Default 1100000000) ?s)" by simp
  from data_only_within_window [OF run init _ rd, of "Default 1600000000"] lr
  have b: "\<not> emits_data (Run_step zero_reader sends sends (Default 1600000000) ?s)" by simp
  from data_only_within_window [OF run0 init _ rd0, of "Default 1100000000"]
  have c: "\<not> emits_data (Run_step zero_reader sends sends (Default 1100000000) started_server)"
    by simp
  from a b c show ?thesis by simp
qed

text \<open>
  C8.  The claim: the region count is the ceiling of the quotient of the size and the
  region size, and the payload of the last region has \<open>totalSize - (regionCount-1) *
  regionSize\<close> bytes.  The server \<open>big_server\<close> has a size of 3000 bytes; the start of
  \<open>Run\<close> gives it regions of 1459 bytes and the region count 3, the ceiling, which
  leaves 82 bytes to the last region.  After a data request the loop sends the regions
  0, 1 and 2 and wraps around; every one of the three data messages carries 1459
  bytes, the one of the last region too: the cursor, an index of regions, is handed to
  \<open>ReadAt\<close> as the offset in bytes.
\<close>

theorem last_region_payload_not_remainder:
  "(case Run_setup 33 41 big_server of
      None \<Rightarrow> False
    | Some s \<Rightarrow>
        uint (regionSize s) = 1500 - 41
        \<and> regionCount s = 3
        \<and> regionCount s = \<lceil>real_of_int (tb_size s) / real_of_int (uint (regionSize s))\<rceil>
        \<and> tb_size s - (regionCount s - 1) * uint (regionSize s) = 82
        \<and> (case Run_loop [data_request 1000000000, Default 1000000001, Default 1000000002,
                           Default 1000000003]
                   (spec_ReadAt big_space) sends sends s of
              Continue ms s' \<Rightarrow>
                map region_and_length ms = [Some (0, 1459), Some (1, 1459), Some (2, 1459)]
                \<and> nextRegion s' = 0
            | _ \<Rightarrow> False))"
proof -
  have c: "(3 :: int) = \<lceil>real_of_int 3000 / real_of_int 1459\<rceil>"
    using region_count_is_ceiling [of 3000 1500 41]
    by (simp add: region_count_def quot_def region_size_def)
  show ?thesis
    unfolding big_setup option.case big_loop step.case
    using c by (simp add: big_fields big_space_length)
qed

text \<open>
  C9.  The claim: a symbolic link is created when it does not exist, and the creation
  is skipped when it exists.  \<open>makeSymlink\<close> returns without creating anything when
  \<open>os.Lstat\<close> reports that the path does not exist: the write of the terminator byte
  of the link succeeds and the file system is as before, with no link.  When the link
  is there, \<open>makeSymlink\<close> goes on to change into it, and the write fails.
\<close>

theorem symlink_not_created:
  "NewVirtualTarballWriter (files link_writer) = Inr link_writer
   \<and> WriteAt link_writer empty_fs (Some [0]) 0 = ((1, None), link_writer, empty_fs)
   \<and> nodes empty_fs [''link''] = None
   \<and> nodes linked_fs [''link''] = Some (Link ''target'')
   \<and> fst (WriteAt link_writer linked_fs (Some [0]) 0) = (0, Some (OSError ENOENT))"
proof -
  have "NewVirtualTarballWriter (files link_writer) = Inr link_writer"
    by (simp add: NewVirtualTarballWriter_def int64_def link_writer_def IsAbs_def
        Separator_def bad_segment_def sortFiles_def)
  moreover
  have "WriteAt link_writer empty_fs (Some [0]) 0 = ((1, None), link_writer, empty_fs)"
    by (simp add: WriteAt_def link_writer_def empty_fs_def WriteAt_prepare_def
        ModeSymlink_def WriteAt_write_def WriteAt_padding_def makeSymlink_def Lstat_def
        resolve_def IsAbs_def Separator_def walk_def IsNotExist_def)
  moreover
  have "nodes empty_fs [''link''] = None"
    by (simp add: empty_fs_def)
  moreover
  have "nodes linked_fs [''link''] = Some (Link ''target'')"
    by (simp add: linked_fs_def)
  moreover
  have "fst (WriteAt link_writer linked_fs (Some [0]) 0) = (0, Some (OSError ENOENT))"
    by code_simp
  ultimately show ?thesis by blast
qed

text \<open>
  C10.  The claim: the handler of a request for a metadata section is total only for
  payloads of at least 2 bytes, and the index of a shorter payload is an access out of
  bounds.  Go checks the slice expression \<open>data[0:2]\<close> against the capacity of the
  payload: a payload of one byte with two more bytes of capacity is answered, with
  section 0.
\<close>

theorem short_payload_answered:
  "length (elems \<lparr>elems = [0], spare = [0, 7]\<rparr>) = 1
   \<and> processControl started_server 0
       (Inr (replicate 32 1, RequestMetadataSection, \<lparr>elems = [0], spare = [0, 7]\<rparr>))
     = Some (None,
         [ControlToClient (replicate 32 1) RespondMetadataSection
            ([0, 0] @ metadata (jim_server 1500))],
         started_server)"
  by (simp add: processControl_def started_server_def jim_server_def NewServer_def
      slice_upto_def cap_def Uint16_def Let_def)

text \<open>
  C10, amended.  The handler forms \<open>data[0:2]\<close> with no check of the length of the
  payload.  It panics exactly when the capacity of the payload is below 2.  Otherwise
  the index is read from the first two bytes of the payload and of the backing array
  behind it: the handler answers with the section of that index when the index is below
  the number of sections as a \<open>uint16\<close>, and does nothing when it is not.
\<close>

theorem section_request_by_capacity:
  assumes "hashId = tb_HashId s"
  shows "processControl s now (Inr (hashId, RequestMetadataSection, d)) =
     (if cap d < 2 then None
      else if unat (Uint16 (take 2 (elems d @ spare d))) < length (metadataSections s) mod 65536
      then Some (None,
             [ControlToClient hashId RespondMetadataSection
                (metadataSections s ! unat (Uint16 (take 2 (elems d @ spare d))))], s)
      else Some (None, [], s))"
proof (cases "cap d < 2")
  case True
  then have "slice_upto d 2 = None" by (simp add: slice_upto_def)
  with True assms show ?thesis by (simp add: processControl_def)
next
  case False
  let ?i = "Uint16 (take 2 (elems d @ spare d))"
  from False have sl: "slice_upto d 2 = Some (take 2 (elems d @ spare d))"
    by (simp add: slice_upto_def)
  show ?thesis
  proof (cases "unat ?i < length (metadataSections s) mod 65536")
    case True
    then have g: "\<not> ?i \<ge> (word_of_nat (length (metadataSections s)) :: 16 word)"
      by (simp only: section_index_guard not_not)
    have "length (metadataSections s) mod 65536 \<le> length (metadataSections s)" by simp
    with True have "unat ?i < length (metadataSections s)" by linarith
    with g sl True False assms show ?thesis by (simp add: processControl_def Let_def)
  next
    case nr: False
    then have g: "?i \<ge> (word_of_nat (length (metadataSections s)) :: 16 word)"
      by (simp only: section_index_guard not_False_eq_True)
    with sl nr False assms show ?thesis by (simp add: processControl_def Let_def)
  qed
qed

text \<open>
  C10, the witness: one byte with no spare capacity makes the server panic, one byte
  with spare capacity is answered with section 0, and the index 1 of a payload of two
  bytes, out of range for the one section, is ignored.
\<close>

theorem section_request_by_capacity_witness:
  "processControl started_server 0
       (Inr (replicate 32 1, RequestMetadataSection, \<lparr>elems = [0], spare = []\<rparr>)) = None
   \<and> processControl started_server 0
       (Inr (replicate 32 1, RequestMetadataSection, \<lparr>elems = [0], spare = [0, 7]\<rparr>))
     = Some (None,
         [ControlToClient (replicate 32 1) RespondMetadataSection
            ([0, 0] @ metadata (jim_server 1500))],
         started_server)
   \<and> processControl started_server 0
       (Inr (replicate 32 1, RequestMetadataSection, \<lparr>elems = [1, 0], spare = []\<rparr>))
     = Some (None, [], started_server)"
proof -
  have h: "replicate 32 1 = tb_HashId started_server"
    by (simp add: started_server_def jim_server_def NewServer_def)
  have secs: "metadataSections started_server = [[0, 0] @ metadata (jim_server 1500)]"
    by (simp add: started_server_def)
  from section_request_by_capacity [OF h, of 0 "\<lparr>elems = [0], spare = []\<rparr>"]
  have a: "processControl started_server 0
       (Inr (replicate 32 1, RequestMetadataSection, \<lparr>elems = [0], spare = []\<rparr>)) = None"
    by (simp add: cap_def)
  from section_request_by_capacity [OF h, of 0 "\<lparr>elems = [0], spare = [0, 7]\<rparr>"]
  have b: "processControl started_server 0
       (Inr (replicate 32 1, RequestMetadataSection, \<lparr>elems = [0], spare = [0, 7]\<rparr>))
     = Some (None,
         [ControlToClient (replicate 32 1) RespondMetadataSection
            ([0, 0] @ metadata (jim_server 1500))],
         started_server)"
    by (simp add: cap_def secs Uint16_def)
  from section_request_by_capacity [OF h, of 0 "\<lparr>elems = [1, 0], spare = []\<rparr>"]
  have c: "processControl started_server 0
       (Inr (replicate 32 1, RequestMetadataSection, \<lparr>elems = [1, 0], spare = []\<rparr>))
     = Some (None, [], started_server)"
    by (simp add: cap_def secs Uint16_def)
  from a b c show ?thesis by simp
qed

end
